theory Spec2Isabelle
  imports Main "HOL-Library.Word" "HOL-Library.AList"
begin

unbundle bit_operations_syntax

section \<open>JavaScript values\<close>

text \<open>
  The program is dynamically typed, so its values are one datatype. Numbers are the
  integers (fractions, NaN and the infinities do not occur in what is verified here),
  strings are byte strings, a \<open>Buffer\<close> is its bytes, a \<open>Date\<close> is represented by
  its ISO-8601 text (what \<open>Date.prototype.toJSON\<close> renders), an array carries its
  elements and, as every JavaScript array may, further named properties, and an object
  is the list of its own enumerable properties in insertion order.
\<close>

type_synonym byte = "8 word"

datatype jsval =
    JUndefined
  | JNull
  | JBool bool
  | JNum int
  | JStr string
  | JBuffer "byte list"
  | JDate string
  | JArr "jsval list" "(string \<times> jsval) list"
  | JObj "(string \<times> jsval) list"

type_synonym props = "(string \<times> jsval) list"

text \<open>Truthiness, as \<open>if (v)\<close> and \<open>!v\<close> test it.\<close>

fun truthy :: "jsval \<Rightarrow> bool" where
  "truthy JUndefined = False"
| "truthy JNull = False"
| "truthy (JBool b) = b"
| "truthy (JNum n) = (n \<noteq> 0)"
| "truthy (JStr s) = (s \<noteq> [])"
| "truthy (JBuffer bs) = True"
| "truthy (JDate s) = True"
| "truthy (JArr xs ps) = True"
| "truthy (JObj ps) = True"

fun is_primitive :: "jsval \<Rightarrow> bool" where
  "is_primitive (JBuffer bs) = False"
| "is_primitive (JDate s) = False"
| "is_primitive (JArr xs ps) = False"
| "is_primitive (JObj ps) = False"
| "is_primitive v = True"

text \<open>
  \<open>a === b\<close>. Primitives are compared by value. Objects are compared by reference in
  JavaScript; the objects compared in this program are a value decoded from the store
  or extracted from an output on one side and a path of an input on the other, which
  are distinct objects, so an object operand makes the comparison false.
\<close>

definition strict_eq :: "jsval \<Rightarrow> jsval \<Rightarrow> bool" where
  "strict_eq a b = (if is_primitive a then a = b else False)"

fun is_string :: "jsval \<Rightarrow> bool" where
  "is_string (JStr s) = True"
| "is_string v = False"

text \<open>\<open>typeof v === 'object'\<close>\<close>

fun typeof_object :: "jsval \<Rightarrow> bool" where
  "typeof_object JNull = True"
| "typeof_object (JBuffer bs) = True"
| "typeof_object (JDate s) = True"
| "typeof_object (JArr xs ps) = True"
| "typeof_object (JObj ps) = True"
| "typeof_object v = False"

fun isBuffer :: "jsval \<Rightarrow> bool" where
  "isBuffer (JBuffer bs) = True"
| "isBuffer v = False"

fun isArray :: "jsval \<Rightarrow> bool" where
  "isArray (JArr xs ps) = True"
| "isArray v = False"

text \<open>The decimal text of an array index, the property name of an element.\<close>

fun index_key :: "nat \<Rightarrow> string" where
  "index_key n =
     (if n < 10 then [char_of (48 + n)]
      else index_key (n div 10) @ [char_of (48 + n mod 10)])"

declare index_key.simps [simp del]

text \<open>The own enumerable properties of a value, in enumeration order.\<close>

fun own_props :: "jsval \<Rightarrow> props" where
  "own_props (JObj ps) = ps"
| "own_props (JArr xs ps) = zip (map index_key [0..<length xs]) xs @ ps"
| "own_props (JBuffer bs) = zip (map index_key [0..<length bs]) (map (\<lambda>b. JNum (uint b)) bs)"
| "own_props v = []"

text \<open>
  \<open>v.k\<close> on a value that is neither \<open>undefined\<close> nor \<open>null\<close>: the own property, or
  \<open>undefined\<close>. Properties inherited from a prototype (\<open>length\<close>, methods) are not
  data of the program and read as \<open>undefined\<close>.
\<close>

definition get_prop :: "jsval \<Rightarrow> string \<Rightarrow> jsval" where
  "get_prop v k = (case map_of (own_props v) k of None \<Rightarrow> JUndefined | Some x \<Rightarrow> x)"

datatype err = TypeError | Unmodelled | Thrown jsval

text \<open>\<open>v.k\<close> in general: reading a property of \<open>undefined\<close> or \<open>null\<close> throws.\<close>

fun read_prop :: "jsval \<Rightarrow> string \<Rightarrow> err + jsval" where
  "read_prop JUndefined k = Inl TypeError"
| "read_prop JNull k = Inl TypeError"
| "read_prop v k = Inr (get_prop v k)"

text \<open>
  \<open>v.k = x\<close> in strict mode (both source files start with \<open>'use strict'\<close>): an object
  or array takes the property; a primitive throws. A Buffer or Date takes it too, but
  the only later use of such a value here is \<open>JSON.stringify\<close>, which renders both
  through \<open>toJSON\<close> and never shows the property, so the value is kept as it is.
\<close>

fun write_prop :: "jsval \<Rightarrow> string \<Rightarrow> jsval \<Rightarrow> err + jsval" where
  "write_prop (JObj ps) k x = Inr (JObj (AList.update k x ps))"
| "write_prop (JArr xs ps) k x = Inr (JArr xs (AList.update k x ps))"
| "write_prop (JBuffer bs) k x = Inr (JBuffer bs)"
| "write_prop (JDate s) k x = Inr (JDate s)"
| "write_prop v k x = Inl TypeError"

subsection \<open>The object helpers the program requires\<close>

text \<open>
  \<open>object-assign\<close>: for every own key of the source, \<open>to[key] = from[key]\<close>.
\<close>

definition objectAssign :: "props \<Rightarrow> props \<Rightarrow> props" where
  "objectAssign to_obj from_obj =
     foldl (\<lambda>t k. case map_of from_obj k of None \<Rightarrow> t | Some v \<Rightarrow> AList.update k v t)
       to_obj (map fst from_obj)"

text \<open>
  \<open>object.omit\<close>: a value that is not an object gives \<open>{}\<close>; otherwise every own
  property whose key is not listed.
\<close>

definition objectOmit :: "jsval \<Rightarrow> string list \<Rightarrow> props" where
  "objectOmit obj ks = filter (\<lambda>(k, v). k \<notin> set ks) (own_props obj)"

text \<open>
  \<open>object.pick\<close>: \<open>{}\<close> for a value that is not a plain object (arrays included);
  otherwise, for every listed key that is \<open>in\<close> the object, \<open>res[key] = obj[key]\<close>.
\<close>

fun objectPick :: "jsval \<Rightarrow> string list \<Rightarrow> props" where
  "objectPick (JObj ps) ks =
     foldl (\<lambda>res k. case map_of ps k of None \<Rightarrow> res | Some v \<Rightarrow> AList.update k v res) [] ks"
| "objectPick (JBuffer bs) ks =
     foldl (\<lambda>res k. case map_of (own_props (JBuffer bs)) k of None \<Rightarrow> res
                    | Some v \<Rightarrow> AList.update k v res) [] ks"
| "objectPick v ks = []"

section \<open>The stored textual form\<close>

text \<open>
  \<open>JSON.stringify\<close> and \<open>JSON.parse\<close> are the language's own. A JSON text is
  represented by the tree it denotes: writing a tree as text and reading that text back
  is the identity, so the text layer is left out. \<open>to_json\<close> is the value-to-tree half
  of \<open>JSON.stringify\<close>: \<open>undefined\<close> alone has no rendering, a Buffer renders through
  its \<open>toJSON\<close> as \<open>{type: 'Buffer', data: [...]}\<close>, a Date as its ISO text, an array
  as its elements only (an \<open>undefined\<close> element as \<open>null\<close>, named properties dropped),
  an object as its properties without those whose value is \<open>undefined\<close>. \<open>of_json\<close> is
  the tree-to-value half of \<open>JSON.parse\<close>.
\<close>

datatype json =
    JsNull
  | JsBool bool
  | JsNum int
  | JsStr string
  | JsArr "json list"
  | JsObj "(string \<times> json) list"

fun to_json :: "jsval \<Rightarrow> json option"
  and to_json_elems :: "jsval list \<Rightarrow> json list"
  and to_json_props :: "(string \<times> jsval) list \<Rightarrow> (string \<times> json) list" where
  "to_json JUndefined = None"
| "to_json JNull = Some JsNull"
| "to_json (JBool b) = Some (JsBool b)"
| "to_json (JNum n) = Some (JsNum n)"
| "to_json (JStr s) = Some (JsStr s)"
| "to_json (JBuffer bs) =
     Some (JsObj [(''type'', JsStr ''Buffer''), (''data'', JsArr (map (\<lambda>b. JsNum (uint b)) bs))])"
| "to_json (JDate s) = Some (JsStr s)"
| "to_json (JArr xs ps) = Some (JsArr (to_json_elems xs))"
| "to_json (JObj ps) = Some (JsObj (to_json_props ps))"
| "to_json_elems [] = []"
| "to_json_elems (x # xs) =
     (case to_json x of None \<Rightarrow> JsNull | Some j \<Rightarrow> j) # to_json_elems xs"
| "to_json_props [] = []"
| "to_json_props ((k, v) # ps) =
     (case to_json v of None \<Rightarrow> to_json_props ps | Some j \<Rightarrow> (k, j) # to_json_props ps)"

fun of_json :: "json \<Rightarrow> jsval"
  and of_json_elems :: "json list \<Rightarrow> jsval list"
  and of_json_props :: "(string \<times> json) list \<Rightarrow> (string \<times> jsval) list" where
  "of_json JsNull = JNull"
| "of_json (JsBool b) = JBool b"
| "of_json (JsNum n) = JNum n"
| "of_json (JsStr s) = JStr s"
| "of_json (JsArr xs) = JArr (of_json_elems xs) []"
| "of_json (JsObj ps) = JObj (of_json_props ps)"
| "of_json_elems [] = []"
| "of_json_elems (x # xs) = of_json x # of_json_elems xs"
| "of_json_props [] = []"
| "of_json_props ((k, v) # ps) = (k, of_json v) # of_json_props ps"

text \<open>
  What the store holds under a key (\<open>cached.contents\<close>): the text of a tree written by
  \<open>JSON.stringify\<close>, or a string value stored verbatim.
\<close>

datatype raw = Verbatim string | Stringified json

section \<open>The environment: constants and library functions outside the repository\<close>

text \<open>
  \<open>VERSION\<close> is read from \<open>package.json\<close>, which is not among the sources; the
  digest, the text encodings of a Buffer and the JSON reader of arbitrary text belong to
  the runtime. They are parameters. \<open>md5\<close> is the 128-bit digest of
  \<open>crypto.createHash('md5')\<close>; \<open>jsonParseText\<close> is \<open>JSON.parse\<close> on a verbatim string
  (\<open>None\<close> where it throws); \<open>isStream\<close> is the artifact's \<open>isStream()\<close> method.
\<close>

record env =
  VERSION :: string
  md5 :: "string \<Rightarrow> 128 word"
  toBase64 :: "byte list \<Rightarrow> string"
  fromBase64 :: "string \<Rightarrow> byte list"
  toUtf8 :: "byte list \<Rightarrow> string"
  jsonParseText :: "string \<Rightarrow> json option"
  isStream :: "props \<Rightarrow> bool"

text \<open>\<open>digest('hex')\<close>: the 16 bytes of the digest as 32 lower-case hexadecimal digits.\<close>

definition hex_digit :: "nat \<Rightarrow> char" where
  "hex_digit n = (if n < 10 then char_of (48 + n) else char_of (87 + n))"

definition hex128 :: "128 word \<Rightarrow> string" where
  "hex128 w = map (\<lambda>i. hex_digit (unat (drop_bit (4 * (31 - i)) w AND 15))) [0..<32]"

text \<open>
  \<open>tryJsonParse(cached.contents)\<close>: the parsed value, or \<open>undefined\<close> (here \<open>None\<close>)
  when the text is not JSON.
\<close>

fun tryJsonParse :: "env \<Rightarrow> raw \<Rightarrow> jsval option" where
  "tryJsonParse E (Stringified j) = Some (of_json j)"
| "tryJsonParse E (Verbatim s) = map_option of_json (jsonParseText E s)"

text \<open>
  \<open>new Buffer(array)\<close>: every element is taken modulo 256. The coercion of an element
  that is not a number, a boolean or \<open>null\<close> is not modelled (\<open>None\<close>).
\<close>

fun to_byte :: "jsval \<Rightarrow> byte option" where
  "to_byte (JNum n) = Some (word_of_int n)"
| "to_byte (JBool b) = Some (if b then 1 else 0)"
| "to_byte JNull = Some 0"
| "to_byte v = None"

fun bufferFromArray :: "jsval list \<Rightarrow> byte list option" where
  "bufferFromArray [] = Some []"
| "bufferFromArray (x # xs) =
     (case to_byte x of None \<Rightarrow> None
      | Some b \<Rightarrow> (case bufferFromArray xs of None \<Rightarrow> None | Some bs \<Rightarrow> Some (b # bs)))"

section \<open>Artifacts: extraction and restoration (the plugin's entry file)\<close>

text \<open>
  \<open>fileToObj\<close>: the properties of an output artifact that are retained.
\<close>

definition retained :: "string list" where
  "retained = [''cwd'', ''base'', ''contents'', ''stat'', ''history'', ''path'']"

definition fileToObj :: "jsval \<Rightarrow> props" where
  "fileToObj file = objectPick file retained"

text \<open>
  Modelled from the spec: the artifact class (\<open>File\<close>, required from the \<open>vinyl\<close>
  package) is not among the sources. The spec treats an artifact as an opaque structure
  with a content blob, a path and named properties, and has restoration "build a fresh
  Artifact per stored value"; its structural fields are the working directory, the path,
  the base directory, the modification stats and the history. So \<open>new File(obj)\<close> is
  the artifact that holds the structural fields and the content of \<open>obj\<close>, and an
  artifact's properties are read and written like any object's.
\<close>

definition File :: "jsval \<Rightarrow> props" where
  "File obj = filter (\<lambda>(k, v). k \<in> set retained) (own_props obj)"

text \<open>\<open>file.isNull()\<close>: the content is \<open>null\<close>.\<close>

definition isNull :: "props \<Rightarrow> bool" where
  "isNull file = (get_prop (JObj file) ''contents'' = JNull)"

text \<open>
  \<open>restoreFileFromObj\<close>. The three shapes of stored content are tried in the source's
  order; \<open>obj.contents = ...\<close> updates the decoded value itself.
\<close>

definition restore_contents :: "env \<Rightarrow> jsval \<Rightarrow> jsval \<Rightarrow> err + jsval" where
  "restore_contents E obj c =
     (if truthy c then
        (case get_prop c ''data'' of
           JArr xs ps \<Rightarrow>
             (case bufferFromArray xs of
                None \<Rightarrow> Inl Unmodelled
              | Some bs \<Rightarrow> write_prop obj ''contents'' (JBuffer bs))
         | d \<Rightarrow>
             (case c of
                JArr ys qs \<Rightarrow>
                  (case bufferFromArray ys of
                     None \<Rightarrow> Inl Unmodelled
                   | Some bs \<Rightarrow> write_prop obj ''contents'' (JBuffer bs))
              | JStr s \<Rightarrow> write_prop obj ''contents'' (JBuffer (fromBase64 E s))
              | c' \<Rightarrow> Inr obj))
      else Inr obj)"

definition restoreFileFromObj :: "env \<Rightarrow> jsval \<Rightarrow> err + jsval" where
  "restoreFileFromObj E obj =
     (case read_prop obj ''contents'' of
        Inl e \<Rightarrow> Inl e
      | Inr c \<Rightarrow>
          (case restore_contents E obj c of
             Inl e \<Rightarrow> Inl e
           | Inr obj' \<Rightarrow>
               (let restoredFile = File obj';
                    extraTaskProperties = objectOmit obj' (map fst restoredFile)
                in Inr (JObj (objectAssign restoredFile extraTaskProperties)))))"

section \<open>Configuration\<close>

text \<open>
  What a configured function gives when called: a plain value, a promise (fulfilled or
  rejected; a node-style function of two arguments is promisified by the program and
  is then of this kind), or an exception.
\<close>

datatype ret = Plain jsval | Fulfilled jsval | RejectedWith jsval | Throws err

datatype success_opt = SuccessValue jsval | SuccessFn "jsval \<Rightarrow> ret"

datatype value_option = ValueFn "jsval \<Rightarrow> ret" | ValueString string | ValueOther

text \<open>
  The resolved options of an invocation. The configured functions are called with the
  options as \<open>this\<close>; here they are closed over what they read of them. \<open>restore\<close> is
  \<open>None\<close> when the option is falsy. \<open>value_opt\<close> is the option \<open>value\<close>: a function,
  a property name, or anything else (\<open>undefined\<close> included). The option \<open>fileCache\<close> is
  the store of the world below.
\<close>

record opts =
  name :: string
  key :: "jsval \<Rightarrow> ret"
  manyToMany :: bool
  restore :: "(jsval \<Rightarrow> err + jsval) option"
  success :: success_opt
  value_opt :: value_option

text \<open>The default \<open>key\<close>: the version tag, then the base64 text of each content.\<close>

definition contents_base64 :: "env \<Rightarrow> jsval \<Rightarrow> err + string" where
  "contents_base64 E file =
     (case read_prop file ''contents'' of
        Inl e \<Rightarrow> Inl e
      | Inr c \<Rightarrow>
          (case c of
             JBuffer bs \<Rightarrow> Inr (toBase64 E bs)
           | JStr s \<Rightarrow> Inr s
           | JUndefined \<Rightarrow> Inl TypeError
           | JNull \<Rightarrow> Inl TypeError
           | c' \<Rightarrow> Inl Unmodelled))"

fun join_contents :: "env \<Rightarrow> jsval list \<Rightarrow> err + string" where
  "join_contents E [] = Inr []"
| "join_contents E (f # fs) =
     (case contents_base64 E f of
        Inl e \<Rightarrow> Inl e
      | Inr s \<Rightarrow> (case join_contents E fs of Inl e \<Rightarrow> Inl e | Inr t \<Rightarrow> Inr (s @ t)))"

definition defaultKey :: "env \<Rightarrow> bool \<Rightarrow> jsval \<Rightarrow> ret" where
  "defaultKey E m2m fileOrFiles =
     (case (if m2m then (case fileOrFiles of JArr xs ps \<Rightarrow> Inr xs | v \<Rightarrow> Inl TypeError)
            else Inr [fileOrFiles]) of
        Inl e \<Rightarrow> Throws e
      | Inr files \<Rightarrow>
          (case join_contents E files of
             Inl e \<Rightarrow> Throws e
           | Inr filesContents \<Rightarrow> Plain (JStr (VERSION E @ filesContents))))"

fun map_err :: "('a \<Rightarrow> err + 'b) \<Rightarrow> 'a list \<Rightarrow> err + 'b list" where
  "map_err f [] = Inr []"
| "map_err f (x # xs) =
     (case f x of
        Inl e \<Rightarrow> Inl e
      | Inr y \<Rightarrow> (case map_err f xs of Inl e \<Rightarrow> Inl e | Inr ys \<Rightarrow> Inr (y # ys)))"

definition defaultRestore :: "env \<Rightarrow> bool \<Rightarrow> jsval \<Rightarrow> err + jsval" where
  "defaultRestore E m2m v =
     (if m2m then
        (case v of
           JArr xs ps \<Rightarrow>
             (case map_err (restoreFileFromObj E) xs of
                Inl e \<Rightarrow> Inl e
              | Inr ys \<Rightarrow> Inr (JArr ys []))
         | v' \<Rightarrow> Inl TypeError)
      else restoreFileFromObj E v)"

definition defaultValue :: "bool \<Rightarrow> jsval \<Rightarrow> ret" where
  "defaultValue m2m fileOrFiles =
     (if m2m then
        (case fileOrFiles of
           JArr xs ps \<Rightarrow> Plain (JArr (map (\<lambda>f. JObj (fileToObj f)) xs) [])
         | v \<Rightarrow> Throws TypeError)
      else Plain (JObj (fileToObj fileOrFiles)))"

text \<open>
  \<open>defaultOptions\<close>, with the caller's \<open>manyToMany\<close> merged over it (the default
  functions read \<open>this.manyToMany\<close> of the merged options).
\<close>

definition defaultOptions :: "env \<Rightarrow> bool \<Rightarrow> opts" where
  "defaultOptions E m2m =
     \<lparr> name = ''default'',
       key = defaultKey E m2m,
       manyToMany = m2m,
       restore = Some (defaultRestore E m2m),
       success = SuccessValue (JBool True),
       value_opt = ValueFn (defaultValue m2m) \<rparr>"

section \<open>The world of an invocation\<close>

text \<open>
  The wrapped task is a stream; what matters of it is the sequence of events it emits
  once the inputs are written to it. The cache store is a finite table keyed by
  namespace and key, taken as reliable as the spec does. Every call on a collaborator
  (the key function, the store, the task) is recorded in order, so that "is never
  called" can be stated. The task's listener table holds one entry per registered
  listener, in registration order.
\<close>

datatype event = Data jsval | Error jsval | End jsval

datatype handler = HandleError | HandleData | HandleEnd | Foreign nat

datatype call =
    KeyCall jsval
  | GetCached string jsval
  | AddCached string jsval raw
  | RemoveCached string jsval
  | TaskWrite jsval
  | TaskEnd

record world =
  cache :: "((string \<times> jsval) \<times> raw) list"
  calls :: "call list"
  listeners :: "(string \<times> handler) list"
  maxListeners :: "int option"

text \<open>
  A promise, seen when nothing more can happen: fulfilled, rejected, or never settled.
  \<open>Threw\<close> is an exception raised before any promise exists.
\<close>

datatype 'a outcome = Resolved 'a | Rejected err | Threw err | Pending

text \<open>
  \<open>p.then(f)\<close>: the callback runs on the fulfilled value, and an exception it raises
  rejects the resulting promise.
\<close>

definition thenP ::
  "'a outcome \<times> world \<Rightarrow> ('a \<Rightarrow> world \<Rightarrow> 'b outcome \<times> world) \<Rightarrow> 'b outcome \<times> world" where
  "thenP m f =
     (case m of
        (Resolved x, w) \<Rightarrow> (case f x w of (Threw e, w') \<Rightarrow> (Rejected e, w') | r \<Rightarrow> r)
      | (Rejected e, w) \<Rightarrow> (Rejected e, w)
      | (Threw e, w) \<Rightarrow> (Threw e, w)
      | (Pending, w) \<Rightarrow> (Pending, w))"

definition log_calls :: "call list \<Rightarrow> world \<Rightarrow> world" where
  "log_calls cs w = w\<lparr>calls := calls w @ cs\<rparr>"

definition log_call :: "call \<Rightarrow> world \<Rightarrow> world" where
  "log_call c w = log_calls [c] w"

section \<open>The task proxy (lib/TaskProxy.js)\<close>

record proxy =
  task :: "(jsval list \<Rightarrow> event list) option"
  files :: "props list"
  opts :: opts
  originalPaths :: "jsval list"

definition TaskProxy :: "(jsval list \<Rightarrow> event list) option \<Rightarrow> props list \<Rightarrow> opts \<Rightarrow> proxy" where
  "TaskProxy t fs cfg =
     \<lparr> task = t, files = fs, opts = cfg,
       originalPaths = map (\<lambda>f. get_prop (JObj f) ''path'') fs \<rparr>"

text \<open>\<open>xs[0]\<close>: \<open>undefined\<close> on an empty array.\<close>

fun first_or_undefined :: "jsval list \<Rightarrow> jsval" where
  "first_or_undefined [] = JUndefined"
| "first_or_undefined (x # xs) = x"

definition file0 :: "proxy \<Rightarrow> jsval" where
  "file0 self = first_or_undefined (map JObj (files self))"

text \<open>\<open>makeHash\<close>: the digest takes a string or a Buffer and throws on anything else.\<close>

fun makeHash :: "env \<Rightarrow> jsval \<Rightarrow> err + jsval" where
  "makeHash E (JStr s) = Inr (JStr (hex128 (md5 E s)))"
| "makeHash E (JBuffer bs) = Inr (JStr (hex128 (md5 E (map (\<lambda>b. char_of (unat b)) bs))))"
| "makeHash E v = Inl TypeError"

definition hash_key :: "env \<Rightarrow> jsval \<Rightarrow> world \<Rightarrow> jsval outcome \<times> world" where
  "hash_key E k w =
     (if \<not> truthy k then (Resolved k, w)
      else (case makeHash E k of Inl e \<Rightarrow> (Threw e, w) | Inr h \<Rightarrow> (Resolved h, w)))"

text \<open>
  \<open>_getFileKey\<close>. The key function is called with all files in many-to-many mode and
  with \<open>files[0]\<close> otherwise; \<open>Bluebird.resolve\<close> takes a plain value and a promise
  alike.
\<close>

definition key_arg :: "proxy \<Rightarrow> jsval" where
  "key_arg self = (if manyToMany (opts self) then JArr (map JObj (files self)) [] else file0 self)"

definition getFileKey :: "env \<Rightarrow> proxy \<Rightarrow> world \<Rightarrow> jsval outcome \<times> world" where
  "getFileKey E self w =
     (let w1 = log_call (KeyCall (key_arg self)) w
      in case key (opts self) (key_arg self) of
           Throws e \<Rightarrow> (Threw e, w1)
         | RejectedWith e \<Rightarrow> (Rejected (Thrown e), w1)
         | Plain k \<Rightarrow> thenP (Resolved k, w1) (hash_key E)
         | Fulfilled k \<Rightarrow> thenP (Resolved k, w1) (hash_key E))"

text \<open>
  \<open>tryJsonParse(cached.contents)\<close>, with \<open>{cached: cached.contents}\<close> where the text
  is not JSON.
\<close>

fun parseContents :: "env \<Rightarrow> raw \<Rightarrow> jsval" where
  "parseContents E (Stringified j) = of_json j"
| "parseContents E (Verbatim s) =
     (case jsonParseText E s of None \<Rightarrow> JObj [(''cached'', JStr s)] | Some j \<Rightarrow> of_json j)"

definition decodeCached :: "env \<Rightarrow> opts \<Rightarrow> raw \<Rightarrow> err + jsval" where
  "decodeCached E cfg contents =
     (let parsedContents = parseContents E contents
      in case restore cfg of None \<Rightarrow> Inr parsedContents | Some r \<Rightarrow> r parsedContents)"

definition checkForCachedValue ::
  "env \<Rightarrow> proxy \<Rightarrow> world \<Rightarrow> (jsval \<times> jsval) outcome \<times> world" where
  "checkForCachedValue E self w =
     thenP (getFileKey E self w) (\<lambda>k w.
       if \<not> truthy k then (Resolved (k, JNull), w)
       else
         (let w1 = log_call (GetCached (name (opts self)) k) w
          in case map_of (cache w1) (name (opts self), k) of
               None \<Rightarrow> (Resolved (k, JNull), w1)
             | Some contents \<Rightarrow>
                 (case decodeCached E (opts self) contents of
                    Inl e \<Rightarrow> (Threw e, w1)
                  | Inr v \<Rightarrow> (Resolved (k, v), w1))))"

subsection \<open>The execution bridge\<close>

text \<open>
  \<open>removeListener\<close> takes away the most recently added matching entry;
  \<open>setMaxListeners\<close> sets \<open>_maxListeners\<close>.
\<close>

definition removeListener :: "string \<Rightarrow> handler \<Rightarrow> world \<Rightarrow> world" where
  "removeListener ev h w = w\<lparr>listeners := rev (remove1 (ev, h) (rev (listeners w)))\<rparr>"

definition addListener :: "string \<Rightarrow> handler \<Rightarrow> world \<Rightarrow> world" where
  "addListener ev h w = w\<lparr>listeners := listeners w @ [(ev, h)]\<rparr>"

definition setMaxListeners :: "int \<Rightarrow> world \<Rightarrow> world" where
  "setMaxListeners n w = w\<lparr>maxListeners := Some n\<rparr>"

text \<open>
  The start of \<open>_runProxiedTask\<close>: \<open>_maxListeners || 0\<close> raised by three, then the
  three listeners.
\<close>

definition attach :: "world \<Rightarrow> world" where
  "attach w =
     (let currMaxListeners = (case maxListeners w of None \<Rightarrow> 0 | Some n \<Rightarrow> n)
      in addListener ''end'' HandleEnd
           (addListener ''error'' HandleError
             (addListener ''data'' HandleData
               (setMaxListeners (currMaxListeners + 3) w))))"

text \<open>
  What \<open>handleError\<close> and \<open>handleEnd\<close> both do before settling: the three listeners
  are removed and \<open>_maxListeners\<close> (set by \<open>attach\<close>, so never absent here) is lowered
  by three.
\<close>

definition detach :: "world \<Rightarrow> world" where
  "detach w =
     (let w3 = removeListener ''end'' HandleEnd
                 (removeListener ''data'' HandleData
                   (removeListener ''error'' HandleError w))
      in case maxListeners w3 of None \<Rightarrow> w3 | Some n \<Rightarrow> setMaxListeners (n - 3) w3)"

definition handleError :: "jsval \<Rightarrow> world \<Rightarrow> jsval list outcome \<times> world" where
  "handleError e w = (Rejected (Thrown e), detach w)"

definition handleEnd :: "jsval \<Rightarrow> jsval list \<Rightarrow> world \<Rightarrow> jsval list outcome \<times> world" where
  "handleEnd file outputFiles w =
     (Resolved (if truthy file then outputFiles @ [file] else outputFiles), detach w)"

text \<open>
  The events reach the handlers while the listeners are registered, that is until the
  promise settles. The \<open>Data\<close> equation is \<open>handleData\<close>: a truthy file is collected,
  and in one-to-one mode \<open>handleEnd()\<close> is called at once. With no event left and the
  promise unsettled the invocation hangs.
\<close>

fun deliver :: "bool \<Rightarrow> event list \<Rightarrow> jsval list \<Rightarrow> world \<Rightarrow> jsval list outcome \<times> world" where
  "deliver m2m [] outputFiles w = (Pending, w)"
| "deliver m2m (Data file # es) outputFiles w =
     (if truthy file then
        (if m2m then deliver m2m es (outputFiles @ [file]) w
         else handleEnd JUndefined (outputFiles @ [file]) w)
      else deliver m2m es outputFiles w)"
| "deliver m2m (Error e # es) outputFiles w = handleError e w"
| "deliver m2m (End file # es) outputFiles w = handleEnd file outputFiles w"

text \<open>
  \<open>_runProxiedTask\<close>. The inputs written to the task are all files and then
  \<open>end()\<close> in many-to-many mode, \<open>files[0]\<close> alone otherwise; the listeners are
  attached before. An exception in the promise's executor (a proxy without a task)
  rejects it.
\<close>

definition task_inputs :: "proxy \<Rightarrow> jsval list" where
  "task_inputs self = (if manyToMany (opts self) then map JObj (files self) else [file0 self])"

definition task_calls :: "proxy \<Rightarrow> call list" where
  "task_calls self =
     (if manyToMany (opts self) then map TaskWrite (task_inputs self) @ [TaskEnd]
      else [TaskWrite (file0 self)])"

definition runProxiedTask :: "proxy \<Rightarrow> world \<Rightarrow> jsval list outcome \<times> world" where
  "runProxiedTask self w =
     (case task self of
        None \<Rightarrow> (Rejected TypeError, w)
      | Some t \<Rightarrow>
          deliver (manyToMany (opts self)) (t (task_inputs self)) []
            (log_calls (task_calls self) (attach w)))"

subsection \<open>Extraction, encoding and the store write\<close>

text \<open>
  What the success predicate and the value function are called with:
  \<open>self.opts.manyToMany ? outputFiles : outputFiles[0]\<close>.
\<close>

definition result_arg :: "proxy \<Rightarrow> jsval list \<Rightarrow> jsval" where
  "result_arg self outputFiles =
     (if manyToMany (opts self) then JArr outputFiles [] else first_or_undefined outputFiles)"

definition pick :: "string \<Rightarrow> jsval \<Rightarrow> err + jsval" where
  "pick p file = (case read_prop file p of Inl e \<Rightarrow> Inl e | Inr v \<Rightarrow> Inr (JObj [(p, v)]))"

text \<open>
  \<open>_getValueFromResult\<close>. With an option that is neither a function nor a string the
  promise is fulfilled with \<open>getValue\<close>, which is still \<open>undefined\<close>.
\<close>

definition getValueFromResult :: "proxy \<Rightarrow> jsval list \<Rightarrow> jsval outcome" where
  "getValueFromResult self outputFiles =
     (let m2m = manyToMany (opts self)
      in case value_opt (opts self) of
           ValueOther \<Rightarrow> Resolved JUndefined
         | ValueString p \<Rightarrow>
             (if m2m then
                (case map_err (pick p) outputFiles of
                   Inl e \<Rightarrow> Threw e
                 | Inr vs \<Rightarrow> Resolved (JArr vs []))
              else
                (case pick p (first_or_undefined outputFiles) of
                   Inl e \<Rightarrow> Threw e
                 | Inr v \<Rightarrow> Resolved v))
         | ValueFn getValue \<Rightarrow>
             (case getValue (result_arg self outputFiles) of
                Plain v \<Rightarrow> Resolved v
              | Fulfilled v \<Rightarrow> Resolved v
              | RejectedWith e \<Rightarrow> Rejected (Thrown e)
              | Throws e \<Rightarrow> Threw e))"

text \<open>
  The body of the callback of \<open>_storeCachedResult\<close> up to the store call: the text
  that is stored for a value. The shallow copy with the content as UTF-8 text is bound
  to \<open>val\<close> and then overwritten by the \<open>JSON.stringify\<close> of \<open>value\<close> itself, as in
  the source. \<open>value.path\<close> throws on \<open>undefined\<close> and \<open>null\<close>, the two assignments
  throw on a primitive; so \<open>JSON.stringify\<close> never sees \<open>undefined\<close> here, and the
  last branch is only there to make the function total. The stamps are written to the
  extracted value, which is taken to be an object of its own, as the default extraction
  and a property pick make it; the outputs themselves are not changed.
\<close>

definition encodeValue :: "env \<Rightarrow> proxy \<Rightarrow> jsval \<Rightarrow> err + raw" where
  "encodeValue E self v =
     (case v of
        JStr s \<Rightarrow> Inr (Verbatim s)
      | v' \<Rightarrow>
          (let val = (if truthy v \<and> typeof_object v \<and> isBuffer (get_prop v ''contents'')
                      then (case get_prop v ''contents'' of
                              JBuffer bs \<Rightarrow>
                                Some (AList.update ''contents'' (JStr (toUtf8 E bs))
                                        (objectAssign [] (own_props v)))
                            | c \<Rightarrow> None)
                      else None)
           in case read_prop v ''path'' of
                Inl e \<Rightarrow> Inl e
              | Inr p \<Rightarrow>
                  (case (if \<not> strict_eq p (first_or_undefined (originalPaths self))
                         then write_prop v ''filePathChangedInsideTask'' (JBool True)
                         else Inr v) of
                     Inl e \<Rightarrow> Inl e
                   | Inr v1 \<Rightarrow>
                       (case write_prop v1 ''originalPath'' (first_or_undefined (originalPaths self)) of
                          Inl e \<Rightarrow> Inl e
                        | Inr v2 \<Rightarrow>
                            (case to_json v2 of
                               None \<Rightarrow> Inl Unmodelled
                             | Some j \<Rightarrow> Inr (Stringified j))))))"

definition addCached :: "string \<Rightarrow> jsval \<Rightarrow> raw \<Rightarrow> world \<Rightarrow> world" where
  "addCached n k val w =
     (log_call (AddCached n k val) w)\<lparr>cache := AList.update (n, k) val (cache w)\<rparr>"

definition storeCachedResult ::
  "env \<Rightarrow> proxy \<Rightarrow> jsval \<Rightarrow> jsval list \<Rightarrow> world \<Rightarrow> unit outcome \<times> world" where
  "storeCachedResult E self k outputFiles w =
     (if \<not> truthy k then (Resolved (), w)
      else
        thenP (getValueFromResult self outputFiles, w) (\<lambda>v w.
          case encodeValue E self v of
            Inl e \<Rightarrow> (Threw e, w)
          | Inr val \<Rightarrow> (Resolved (), addCached (name (opts self)) k val w)))"

subsection \<open>The orchestrator\<close>

text \<open>
  \<open>self.opts.success !== true && !self.opts.success(...)\<close> is the negation of this:
  \<open>true\<close> itself is success without a call, any other value that is not a function
  throws when called, and of a function's result only the truthiness is looked at (a
  promise is an object, so truthy).
\<close>

definition isSuccess :: "opts \<Rightarrow> jsval \<Rightarrow> err + bool" where
  "isSuccess cfg arg =
     (case success cfg of
        SuccessValue v \<Rightarrow> (if v = JBool True then Inr True else Inl TypeError)
      | SuccessFn f \<Rightarrow>
          (case f arg of
             Plain r \<Rightarrow> Inr (truthy r)
           | Fulfilled r \<Rightarrow> Inr True
           | RejectedWith e \<Rightarrow> Inr True
           | Throws e \<Rightarrow> Inl e))"

definition runProxiedTaskAndCache ::
  "env \<Rightarrow> proxy \<Rightarrow> jsval \<Rightarrow> world \<Rightarrow> jsval list outcome \<times> world" where
  "runProxiedTaskAndCache E self cachedKey w =
     thenP (runProxiedTask self w) (\<lambda>outputFiles w.
       case isSuccess (opts self) (result_arg self outputFiles) of
         Inl e \<Rightarrow> (Threw e, w)
       | Inr ok \<Rightarrow>
           (if ok then
              thenP (storeCachedResult E self cachedKey outputFiles w)
                (\<lambda>u w. (Resolved outputFiles, w))
            else (Resolved outputFiles, w)))"

text \<open>
  The test of a one-to-one hit,
  \<open>!cached.value.filePathChangedInsideTask || cached.value.originalPath === self.files[0].path\<close>,
  evaluated left to right (\<open>self.files[0].path\<close> throws when there is no file).
\<close>

definition acceptsCached :: "jsval \<Rightarrow> proxy \<Rightarrow> err + bool" where
  "acceptsCached v self =
     (if truthy (get_prop v ''filePathChangedInsideTask'') then
        (case read_prop (file0 self) ''path'' of
           Inl e \<Rightarrow> Inl e
         | Inr p \<Rightarrow> Inr (strict_eq (get_prop v ''originalPath'') p))
      else Inr True)"

text \<open>
  The accepted hit: the cached value without the five structural fields is assigned
  onto the input file, whose path is then set to the stored one if that is truthy and
  the path changed inside the task. The input file is updated in place; the updated
  file is what is returned.
\<close>

definition structural :: "string list" where
  "structural = [''cwd'', ''path'', ''base'', ''stat'', ''history'']"

definition mergeCached :: "jsval \<Rightarrow> proxy \<Rightarrow> err + props" where
  "mergeCached v self =
     (case files self of
        [] \<Rightarrow> Inl TypeError
      | f # fs \<Rightarrow>
          (let file = objectAssign f (objectOmit v structural)
           in if truthy (get_prop v ''path'') \<and> truthy (get_prop v ''filePathChangedInsideTask'')
              then Inr (AList.update ''path'' (get_prop v ''path'') file)
              else Inr file))"

text \<open>
  The last statement of the callback of \<open>processFiles\<close>,
  \<open>return self._runProxiedTaskAndCache(cached.key)\<close>: the outputs as the array the
  promise resolves with.
\<close>

definition run_and_wrap :: "env \<Rightarrow> proxy \<Rightarrow> jsval \<Rightarrow> world \<Rightarrow> jsval outcome \<times> world" where
  "run_and_wrap E self k w =
     thenP (runProxiedTaskAndCache E self k w) (\<lambda>outputFiles w. (Resolved (JArr outputFiles []), w))"

definition processFiles :: "env \<Rightarrow> proxy \<Rightarrow> world \<Rightarrow> jsval outcome \<times> world" where
  "processFiles E self w =
     thenP (checkForCachedValue E self w) (\<lambda>cached w.
       (case cached of (k, v) \<Rightarrow>
          if truthy v then
            (if manyToMany (opts self) then (Resolved v, w)
             else
               (case acceptsCached v self of
                  Inl e \<Rightarrow> (Threw e, w)
                | Inr acc \<Rightarrow>
                    (if acc then
                       (case mergeCached v self of
                          Inl e \<Rightarrow> (Threw e, w)
                        | Inr file \<Rightarrow> (Resolved (JArr [JObj file] []), w))
                     else run_and_wrap E self k w)))
          else run_and_wrap E self k w))"

definition removeCached :: "string \<Rightarrow> jsval \<Rightarrow> world \<Rightarrow> world" where
  "removeCached n k w =
     (log_call (RemoveCached n k) w)\<lparr>cache := AList.delete (n, k) (cache w)\<rparr>"

definition removeCachedResult :: "env \<Rightarrow> proxy \<Rightarrow> world \<Rightarrow> unit outcome \<times> world" where
  "removeCachedResult E self w =
     thenP (getFileKey E self w) (\<lambda>cachedKey w.
       (Resolved (), removeCached (name (opts self)) cachedKey w))"

section \<open>The public stream interface (the plugin's entry file)\<close>

text \<open>
  The transform stream of \<open>cacheTask\<close> and of \<open>cacheTask.clear\<close>: the files collected
  for the flush, and what has been pushed downstream. A call of \<open>transform\<close> or
  \<open>flush\<close> ends in its callback being called without an error, with a plugin error,
  or not at all; \<open>Crashed\<close> is an exception out of the call itself.
\<close>

record stream =
  inputFiles :: "props list"
  pushed :: "jsval list"

datatype plugin_error = PluginError err | PluginErrorMessage string

datatype callback = Done | Failed plugin_error | Crashed err | NotCalled

definition push_all :: "jsval list \<Rightarrow> stream \<Rightarrow> stream" where
  "push_all xs s = s\<lparr>pushed := pushed s @ xs\<rparr>"

text \<open>
  The inner \<open>processFiles(transform, files, cb)\<close> of \<open>cacheTask\<close>. \<open>forEach\<close> exists
  on an array and on a Buffer; on any other resolved value the success callback throws
  and \<open>cb\<close> is never called.
\<close>

definition stream_processFiles ::
  "env \<Rightarrow> opts \<Rightarrow> (jsval list \<Rightarrow> event list) \<Rightarrow> props list \<Rightarrow> stream \<times> world
     \<Rightarrow> callback \<times> stream \<times> world" where
  "stream_processFiles E cfg t fs sw =
     (case sw of (s, w) \<Rightarrow>
        (case processFiles E (TaskProxy (Some t) fs cfg) w of
           (Resolved outputFiles, w') \<Rightarrow>
             (case outputFiles of
                JArr xs ps \<Rightarrow> (Done, push_all xs s, w')
              | JBuffer bs \<Rightarrow> (Done, push_all (map (\<lambda>b. JNum (uint b)) bs) s, w')
              | v \<Rightarrow> (NotCalled, s, w'))
         | (Rejected e, w') \<Rightarrow> (Failed (PluginError e), s, w')
         | (Threw e, w') \<Rightarrow> (Crashed e, s, w')
         | (Pending, w') \<Rightarrow> (NotCalled, s, w')))"

definition cache_transform ::
  "env \<Rightarrow> opts \<Rightarrow> (jsval list \<Rightarrow> event list) \<Rightarrow> props \<Rightarrow> stream \<times> world
     \<Rightarrow> callback \<times> stream \<times> world" where
  "cache_transform E cfg t file sw =
     (case sw of (s, w) \<Rightarrow>
        if isNull file then (Done, push_all [JObj file] s, w)
        else if isStream E file then
          (Failed (PluginErrorMessage ''Cannot operate on stream sources''), s, w)
        else if manyToMany cfg then (Done, s\<lparr>inputFiles := inputFiles s @ [file]\<rparr>, w)
        else stream_processFiles E cfg t [file] (s, w))"

definition cache_flush ::
  "env \<Rightarrow> opts \<Rightarrow> (jsval list \<Rightarrow> event list) \<Rightarrow> stream \<times> world \<Rightarrow> callback \<times> stream \<times> world" where
  "cache_flush E cfg t sw =
     (case sw of (s, w) \<Rightarrow>
        if manyToMany cfg then stream_processFiles E cfg t (inputFiles s) (s, w)
        else (Done, s, w))"

text \<open>The inner \<open>removeFiles(transform, files, cb)\<close> of \<open>cacheTask.clear\<close>.\<close>

definition removeFiles ::
  "env \<Rightarrow> opts \<Rightarrow> props list \<Rightarrow> stream \<times> world \<Rightarrow> callback \<times> stream \<times> world" where
  "removeFiles E cfg fs sw =
     (case sw of (s, w) \<Rightarrow>
        (case removeCachedResult E (TaskProxy None fs cfg) w of
           (Resolved u, w') \<Rightarrow> (Done, push_all [first_or_undefined (map JObj fs)] s, w')
         | (Rejected e, w') \<Rightarrow> (Failed (PluginError e), s, w')
         | (Threw e, w') \<Rightarrow> (Crashed e, s, w')
         | (Pending, w') \<Rightarrow> (NotCalled, s, w')))"

definition clear_transform ::
  "env \<Rightarrow> opts \<Rightarrow> props \<Rightarrow> stream \<times> world \<Rightarrow> callback \<times> stream \<times> world" where
  "clear_transform E cfg file sw =
     (case sw of (s, w) \<Rightarrow>
        if isNull file then (Done, push_all [JObj file] s, w)
        else if isStream E file then
          (Failed (PluginErrorMessage ''Cannot operate on stream sources''), s, w)
        else if manyToMany cfg then (Done, s\<lparr>inputFiles := inputFiles s @ [file]\<rparr>, w)
        else removeFiles E cfg [file] (s, w))"

definition clear_flush ::
  "env \<Rightarrow> opts \<Rightarrow> stream \<times> world \<Rightarrow> callback \<times> stream \<times> world" where
  "clear_flush E cfg sw =
     (case sw of (s, w) \<Rightarrow>
        if manyToMany cfg then removeFiles E cfg (inputFiles s) (s, w)
        else (Done, s, w))"

section \<open>Concrete inputs\<close>

text \<open>
  An environment, two worlds and some artifacts on which the theorems below are
  instantiated. The digest of the sample environment is a stand-in (the length of the
  text); no theorem depends on which function it is.
\<close>

definition env0 :: env where
  "env0 =
     \<lparr> VERSION = ''v1'',
       md5 = (\<lambda>s. of_nat (length s)),
       toBase64 = map (\<lambda>b. char_of (unat b)),
       fromBase64 = map (\<lambda>c. of_nat (of_char c)),
       toUtf8 = map (\<lambda>b. char_of (unat b)),
       jsonParseText = (\<lambda>s. None),
       isStream = (\<lambda>f. False) \<rparr>"

definition world0 :: world where
  "world0 = \<lparr> cache = [], calls = [], listeners = [(''data'', Foreign 0)], maxListeners = None \<rparr>"

definition stream0 :: stream where
  "stream0 = \<lparr> inputFiles = [], pushed = [] \<rparr>"

definition fileA :: props where
  "fileA = [(''cwd'', JStr ''/''), (''base'', JStr ''/''), (''path'', JStr ''/a.txt''),
            (''history'', JArr [JStr ''/a.txt''] []), (''stat'', JNull),
            (''contents'', JBuffer [97, 98, 99])]"

definition fileB :: props where
  "fileB = [(''cwd'', JStr ''/''), (''base'', JStr ''/''), (''path'', JStr ''/b.txt''),
            (''history'', JArr [JStr ''/b.txt''] []), (''stat'', JNull),
            (''contents'', JBuffer [97, 98, 99])]"

definition outB :: props where
  "outB = [(''cwd'', JStr ''/''), (''base'', JStr ''/''), (''path'', JStr ''/b.txt''),
           (''history'', JArr [JStr ''/a.txt'', JStr ''/b.txt''] []), (''stat'', JNull),
           (''contents'', JBuffer [65, 66, 255])]"

definition fileNull :: props where
  "fileNull = [(''cwd'', JStr ''/''), (''path'', JStr ''/dir''), (''contents'', JNull)]"

text \<open>A task that answers every write with one output, and one that fails.\<close>

definition renameTask :: "jsval list \<Rightarrow> event list" where
  "renameTask inputs = map (\<lambda>f. Data (JObj outB)) inputs @ [End JUndefined]"

definition failingTask :: "jsval list \<Rightarrow> event list" where
  "failingTask inputs = [Data (JObj outB), Error (JStr ''boom''), Data (JObj outB), End JUndefined]"

section \<open>Observations on a run\<close>

text \<open>
  The calls an invocation adds to the record, and the kinds of call the claims speak
  of. An event keeps the bridge listening when it neither ends nor fails the run: a
  falsy data event in either mode, any data event in many-to-many mode.
\<close>

definition new_calls :: "world \<Rightarrow> world \<Rightarrow> call list" where
  "new_calls w w' = drop (length (calls w)) (calls w')"

fun isStoreCall :: "call \<Rightarrow> bool" where
  "isStoreCall (GetCached n k) = True"
| "isStoreCall (AddCached n k v) = True"
| "isStoreCall (RemoveCached n k) = True"
| "isStoreCall c = False"

fun isAddCached :: "call \<Rightarrow> bool" where
  "isAddCached (AddCached n k v) = True"
| "isAddCached c = False"

fun isTaskCall :: "call \<Rightarrow> bool" where
  "isTaskCall (TaskWrite f) = True"
| "isTaskCall TaskEnd = True"
| "isTaskCall c = False"

fun keeps_listening :: "bool \<Rightarrow> event \<Rightarrow> bool" where
  "keeps_listening m2m (Data file) = (if truthy file then m2m else True)"
| "keeps_listening m2m (Error e) = False"
| "keeps_listening m2m (End file) = False"

text \<open>
  The content blob of an input artifact, for the statement of the default key.
\<close>

fun buffer_bytes :: "jsval \<Rightarrow> byte list" where
  "buffer_bytes (JBuffer bs) = bs"
| "buffer_bytes v = []"

definition has_blob :: "props \<Rightarrow> bool" where
  "has_blob f = isBuffer (get_prop (JObj f) ''contents'')"

definition blob_base64 :: "env \<Rightarrow> props \<Rightarrow> string" where
  "blob_base64 E f = toBase64 E (buffer_bytes (get_prop (JObj f) ''contents''))"

text \<open>
  The round trip of the claims: extraction, encoding to the stored text, decoding and
  restoration, composed from the functions of the source.
\<close>

definition restore_encode_extract :: "env \<Rightarrow> proxy \<Rightarrow> jsval list \<Rightarrow> err + jsval" where
  "restore_encode_extract E self outputFiles =
     (case getValueFromResult self outputFiles of
        Resolved v \<Rightarrow>
          (case encodeValue E self v of
             Inl e \<Rightarrow> Inl e
           | Inr stored \<Rightarrow> decodeCached E (opts self) stored)
      | Rejected e \<Rightarrow> Inl e
      | Threw e \<Rightarrow> Inl e
      | Pending \<Rightarrow> Inl Unmodelled)"

text \<open>
  The values JSON represents exactly: \<open>null\<close>, booleans, numbers, strings, and arrays
  (without named properties) and objects of such values. The content of an in-memory
  artifact is a Buffer or \<open>null\<close>.
\<close>

fun json_plain :: "jsval \<Rightarrow> bool"
  and json_plain_elems :: "jsval list \<Rightarrow> bool"
  and json_plain_props :: "(string \<times> jsval) list \<Rightarrow> bool" where
  "json_plain JUndefined = False"
| "json_plain JNull = True"
| "json_plain (JBool b) = True"
| "json_plain (JNum n) = True"
| "json_plain (JStr s) = True"
| "json_plain (JBuffer bs) = False"
| "json_plain (JDate s) = False"
| "json_plain (JArr xs ps) = (if ps = [] then json_plain_elems xs else False)"
| "json_plain (JObj ps) = json_plain_props ps"
| "json_plain_elems [] = True"
| "json_plain_elems (x # xs) = (if json_plain x then json_plain_elems xs else False)"
| "json_plain_props [] = True"
| "json_plain_props ((k, v) # ps) = (if json_plain v then json_plain_props ps else False)"

fun artifact_contents :: "jsval \<Rightarrow> bool" where
  "artifact_contents (JBuffer bs) = True"
| "artifact_contents JNull = True"
| "artifact_contents v = False"

definition reproducible :: "string \<Rightarrow> jsval \<Rightarrow> bool" where
  "reproducible k v = (if k = ''contents'' then True else if v = JUndefined then True else json_plain v)"

text \<open>
  The two stamps of \<open>_storeCachedResult\<close> on the properties of an object value.
\<close>

definition stamped :: "proxy \<Rightarrow> props \<Rightarrow> props" where
  "stamped self q =
     AList.update ''originalPath'' (first_or_undefined (originalPaths self))
       (if strict_eq (get_prop (JObj q) ''path'') (first_or_undefined (originalPaths self)) then q
        else AList.update ''filePathChangedInsideTask'' (JBool True) q)"

text \<open>The fields of a stored JSON object.\<close>

fun json_fields :: "json \<Rightarrow> (string \<times> json) list" where
  "json_fields (JsObj ps) = ps"
| "json_fields j = []"

text \<open>
  The cases in which \<open>processFiles\<close> goes on to run the task on a looked-up value: the
  value is falsy (a miss), or it is truthy in one-to-one mode and the test of the hit
  refuses it.
\<close>

definition runs_task :: "proxy \<Rightarrow> jsval \<Rightarrow> bool" where
  "runs_task self v =
     (if truthy v then
        (if manyToMany (opts self) then False else acceptsCached v self = Inr False)
      else True)"

section \<open>Further concrete inputs\<close>

text \<open>
  The key of the one-to-one invocation on \<open>fileA\<close> (and on \<open>fileB\<close>, whose content
  is the same) under \<open>env0\<close>, the world after the lookup that misses, and the world
  after the task has run.
\<close>

definition keyA :: jsval where
  "keyA = JStr (hex128 (md5 env0 (VERSION env0 @ ''abc'')))"

definition worldA :: world where
  "worldA = log_call (GetCached ''default'' keyA) (log_call (KeyCall (JObj fileA)) world0)"

definition worldA_run :: world where
  "worldA_run = detach (log_call (TaskWrite (JObj fileA)) (attach worldA))"

text \<open>Proxies on the default options, one-to-one and many-to-many.\<close>

definition proxyA :: proxy where
  "proxyA = TaskProxy (Some renameTask) [fileA] (defaultOptions env0 False)"

definition proxyB :: proxy where
  "proxyB = TaskProxy (Some renameTask) [fileB] (defaultOptions env0 False)"

definition proxyM :: proxy where
  "proxyM = TaskProxy (Some renameTask) [fileA] (defaultOptions env0 True)"

text \<open>
  Proxies whose options differ from the defaults in one field: a key function that gives
  no key; a success predicate that fails through a promise, the boolean \<open>false\<close>, and
  a predicate that fails synchronously; no value-extraction rule. And a many-to-many
  proxy on a task that fails after its first output.
\<close>

definition noKeyOptions :: opts where
  "noKeyOptions = (defaultOptions env0 False)\<lparr>key := (\<lambda>f. Plain JNull)\<rparr>"

definition noKeyProxy :: proxy where
  "noKeyProxy = TaskProxy (Some renameTask) [fileA] noKeyOptions"

definition asyncFailProxy :: proxy where
  "asyncFailProxy = TaskProxy (Some renameTask) [fileA]
     ((defaultOptions env0 False)\<lparr>success := SuccessFn (\<lambda>out. Fulfilled (JBool False))\<rparr>)"

definition falseProxy :: proxy where
  "falseProxy = TaskProxy (Some renameTask) [fileA]
     ((defaultOptions env0 False)\<lparr>success := SuccessValue (JBool False)\<rparr>)"

definition syncFailProxy :: proxy where
  "syncFailProxy = TaskProxy (Some renameTask) [fileA]
     ((defaultOptions env0 False)\<lparr>success := SuccessFn (\<lambda>out. Plain (JBool False))\<rparr>)"

definition noValueProxy :: proxy where
  "noValueProxy = TaskProxy (Some renameTask) [fileA]
     ((defaultOptions env0 False)\<lparr>value_opt := ValueOther\<rparr>)"

definition failingProxy :: proxy where
  "failingProxy = TaskProxy (Some failingTask) [fileA, fileB] (defaultOptions env0 True)"

definition failingKey :: jsval where
  "failingKey = JStr (hex128 (md5 env0 (VERSION env0 @ ''abcabc'')))"

text \<open>
  What the first run on \<open>fileA\<close> through \<open>renameTask\<close> stores, the value decoded and
  restored from it, and a world whose store holds it. \<open>storedElemB\<close> is the element
  stored for the same output in many-to-many mode.
\<close>

definition storedB :: json where
  "storedB = JsObj
     [(''cwd'', JsStr ''/''), (''base'', JsStr ''/''),
      (''contents'', JsObj [(''type'', JsStr ''Buffer''), (''data'', JsArr [JsNum 65, JsNum 66, JsNum 255])]),
      (''stat'', JsNull),
      (''history'', JsArr [JsStr ''/a.txt'', JsStr ''/b.txt'']),
      (''path'', JsStr ''/b.txt''),
      (''filePathChangedInsideTask'', JsBool True),
      (''originalPath'', JsStr ''/a.txt'')]"

definition cachedB :: jsval where
  "cachedB = JObj
     [(''cwd'', JStr ''/''), (''base'', JStr ''/''),
      (''contents'', JBuffer [65, 66, 255]),
      (''stat'', JNull),
      (''history'', JArr [JStr ''/a.txt'', JStr ''/b.txt''] []),
      (''path'', JStr ''/b.txt''),
      (''filePathChangedInsideTask'', JBool True),
      (''originalPath'', JStr ''/a.txt'')]"

definition worldStored :: world where
  "worldStored = \<lparr> cache = [((''default'', keyA), Stringified storedB)], calls = [],
                    listeners = [(''data'', Foreign 0)], maxListeners = Some 0 \<rparr>"

definition storedElemB :: json where
  "storedElemB = JsObj
     [(''cwd'', JsStr ''/''), (''base'', JsStr ''/''),
      (''contents'', JsObj [(''type'', JsStr ''Buffer''), (''data'', JsArr [JsNum 65, JsNum 66, JsNum 255])]),
      (''stat'', JsNull),
      (''history'', JsArr [JsStr ''/a.txt'', JsStr ''/b.txt'']),
      (''path'', JsStr ''/b.txt'')]"

text \<open>
  An output artifact with file stats as a file source supplies them: the modification
  time is a Date.
\<close>

definition outDated :: props where
  "outDated = [(''cwd'', JStr ''/''), (''base'', JStr ''/''), (''path'', JStr ''/a.txt''),
               (''history'', JArr [JStr ''/a.txt''] []),
               (''stat'', JObj [(''size'', JNum 3), (''mtime'', JDate ''2015-06-01T12:00:00.000Z'')]),
               (''contents'', JBuffer [65, 66, 255])]"

text \<open>
  The failing task in one-to-one mode, where its first output completes the run before
  the error; and a task that fails before any output, on an input whose stored entry
  is refused.
\<close>

definition failingOneProxy :: proxy where
  "failingOneProxy = TaskProxy (Some failingTask) [fileA] (defaultOptions env0 False)"

definition errorTask :: "jsval list \<Rightarrow> event list" where
  "errorTask inputs = [Data JNull, Error (JStr ''boom''), End JUndefined]"

definition refusedProxy :: proxy where
  "refusedProxy = TaskProxy (Some errorTask) [fileB] (defaultOptions env0 False)"

section \<open>Promises, the call record and the bridge\<close>

lemma thenP_Resolved:
  "thenP (Resolved x, w) f = (case f x w of (Threw e, w') \<Rightarrow> (Rejected e, w') | r \<Rightarrow> r)"
  by (simp add: thenP_def)

lemma thenP_Rejected [simp]: "thenP (Rejected e, w) f = (Rejected e, w)"
  by (simp add: thenP_def)

lemma thenP_Pending [simp]: "thenP (Pending, w) f = (Pending, w)"
  by (simp add: thenP_def)

lemma thenP_Threw [simp]: "thenP (Threw e, w) f = (Threw e, w)"
  by (simp add: thenP_def)

lemma thenP_not_Threw:
  assumes "\<And>e. fst m \<noteq> Threw e"
  shows "fst (thenP m f) \<noteq> Threw e'"
proof (cases m)
  case (Pair r w)
  with assms show ?thesis
    by (cases r) (auto simp: thenP_def split: prod.splits outcome.splits)
qed

lemma absorb_not_Threw:
  assumes "\<And>e. fst m \<noteq> Threw e"
  shows "(case m of (Threw e, w') \<Rightarrow> (Rejected e, w') | r \<Rightarrow> r) = m"
proof (cases m)
  case (Pair r w)
  with assms show ?thesis by (cases r) auto
qed

lemma length_hex128 [simp]: "length (hex128 w) = 32"
  by (simp add: hex128_def)

lemma hex128_nonempty [simp]: "hex128 w \<noteq> []"
  using length_hex128 [of w] by (cases "hex128 w") simp_all

lemma detach_calls [simp]: "calls (detach w) = calls w"
  by (simp add: detach_def removeListener_def setMaxListeners_def Let_def split: option.splits)

lemma detach_cache [simp]: "cache (detach w) = cache w"
  by (simp add: detach_def removeListener_def setMaxListeners_def Let_def split: option.splits)

lemma attach_calls [simp]: "calls (attach w) = calls w"
  by (simp add: attach_def addListener_def setMaxListeners_def Let_def)

lemma attach_cache [simp]: "cache (attach w) = cache w"
  by (simp add: attach_def addListener_def setMaxListeners_def Let_def)

lemma log_calls_simps [simp]:
  "calls (log_calls cs w) = calls w @ cs" "cache (log_calls cs w) = cache w"
  "listeners (log_calls cs w) = listeners w" "maxListeners (log_calls cs w) = maxListeners w"
  by (simp_all add: log_calls_def)

lemma log_call_simps [simp]:
  "calls (log_call c w) = calls w @ [c]" "cache (log_call c w) = cache w"
  "listeners (log_call c w) = listeners w" "maxListeners (log_call c w) = maxListeners w"
  by (simp_all add: log_call_def)

text \<open>Attaching and detaching leaves the task's listener table as it was found.\<close>

lemma listeners_detach_attach: "listeners (detach (log_calls cs (attach w))) = listeners w"
  by (simp add: detach_def attach_def removeListener_def addListener_def
        setMaxListeners_def Let_def)

lemma deliver_frame:
  "deliver m2m es out w = (r, w') \<Longrightarrow> calls w' = calls w \<and> cache w' = cache w"
  by (induction m2m es out w rule: deliver.induct)
     (auto simp: handleEnd_def handleError_def split: if_splits)

lemma deliver_not_Threw: "fst (deliver m2m es out w) \<noteq> Threw e"
  by (induction m2m es out w rule: deliver.induct)
     (auto simp: handleEnd_def handleError_def)

lemma deliver_error:
  "list_all (keeps_listening m2m) pre \<Longrightarrow>
     deliver m2m (pre @ Error e # post) out w = (Rejected (Thrown e), detach w)"
proof (induction pre arbitrary: out)
  case Nil
  then show ?case by (simp add: handleError_def)
next
  case (Cons ev pre)
  then show ?case by (cases ev) (auto split: if_splits)
qed

lemma runProxiedTask_frame:
  assumes "task self = Some t" and "runProxiedTask self w = (r, w')"
  shows "calls w' = calls w @ task_calls self \<and> cache w' = cache w"
  using assms
    deliver_frame [of "manyToMany (opts self)" "t (task_inputs self)" "[]"
      "log_calls (task_calls self) (attach w)" r w']
  by (simp add: runProxiedTask_def)

lemma runProxiedTask_Resolved_task:
  "runProxiedTask self w = (Resolved out, w') \<Longrightarrow> \<exists>t. task self = Some t"
  by (cases "task self") (simp_all add: runProxiedTask_def)

lemma runProxiedTask_not_Threw: "fst (runProxiedTask self w) \<noteq> Threw e"
  by (simp add: runProxiedTask_def deliver_not_Threw split: option.splits)

lemma runProxiedTask_error:
  assumes "task self = Some t"
    and "t (task_inputs self) = pre @ Error e # post"
    and "list_all (keeps_listening (manyToMany (opts self))) pre"
  shows "runProxiedTask self w =
           (Rejected (Thrown e), detach (log_calls (task_calls self) (attach w)))"
  using assms by (simp add: runProxiedTask_def deliver_error)

lemma task_calls_no_store: "\<not> list_ex isStoreCall (task_calls self)"
  by (auto simp: task_calls_def list_ex_iff)

lemma task_calls_no_add: "\<not> list_ex isAddCached (task_calls self)"
  by (auto simp: task_calls_def list_ex_iff)

lemma task_calls_task: "list_ex isTaskCall (task_calls self)"
  by (auto simp: task_calls_def list_ex_iff)

lemma runProxiedTaskAndCache_not_Threw: "fst (runProxiedTaskAndCache E self k w) \<noteq> Threw e"
  unfolding runProxiedTaskAndCache_def
  by (rule thenP_not_Threw) (rule runProxiedTask_not_Threw)

lemma run_and_wrap_not_Threw: "fst (run_and_wrap E self k w) \<noteq> Threw e"
  unfolding run_and_wrap_def
  by (rule thenP_not_Threw) (rule runProxiedTaskAndCache_not_Threw)

lemma run_and_wrap_world:
  "run_and_wrap E self k w = (r, w') \<Longrightarrow> \<exists>r0. runProxiedTaskAndCache E self k w = (r0, w')"
  by (cases "runProxiedTaskAndCache E self k w" rule: prod.exhaust;
      cases "fst (runProxiedTaskAndCache E self k w)")
     (auto simp: run_and_wrap_def thenP_def)

lemma storeCachedResult_falsy:
  "\<not> truthy k \<Longrightarrow> storeCachedResult E self k out w = (Resolved (), w)"
  by (simp add: storeCachedResult_def)

lemma runProxiedTaskAndCache_falsy_frame:
  assumes "task self = Some t" and "\<not> truthy k"
    and "runProxiedTaskAndCache E self k w = (r, w')"
  shows "calls w' = calls w @ task_calls self \<and> cache w' = cache w"
proof (cases "runProxiedTask self w")
  case (Pair r0 w0)
  from runProxiedTask_frame [OF assms(1) Pair]
  have f: "calls w0 = calls w @ task_calls self" "cache w0 = cache w" by simp_all
  show ?thesis
    using assms(3) Pair f storeCachedResult_falsy [OF assms(2)]
    by (cases r0)
       (auto simp: runProxiedTaskAndCache_def thenP_def split: sum.splits if_splits)
qed

lemma getFileKey_frame:
  "getFileKey E self w = (r, w') \<Longrightarrow>
     cache w' = cache w \<and> listeners w' = listeners w \<and>
     calls w' = calls w @ [KeyCall (key_arg self)]"
  by (auto simp: getFileKey_def Let_def thenP_def hash_key_def
           split: ret.splits if_splits sum.splits)

lemma checkForCachedValue_frame:
  assumes "checkForCachedValue E self w = (r, w')"
  shows "cache w' = cache w \<and> listeners w' = listeners w \<and>
     (\<exists>l. calls w' = calls w @ l \<and> \<not> list_ex isAddCached l \<and> \<not> list_ex isTaskCall l)"
proof (cases "getFileKey E self w")
  case (Pair r0 w0)
  from getFileKey_frame [OF Pair] have
    f: "cache w0 = cache w" "listeners w0 = listeners w"
       "calls w0 = calls w @ [KeyCall (key_arg self)]"
    by simp_all
  show ?thesis
    using assms Pair f
    by (cases r0)
       (auto simp: checkForCachedValue_def thenP_def Let_def
             split: if_splits option.splits sum.splits)
qed

lemma processFiles_miss:
  assumes "checkForCachedValue E self w = (Resolved (k, v), w0)" and "\<not> truthy v"
  shows "processFiles E self w = run_and_wrap E self k w0"
  using assms absorb_not_Threw [of "run_and_wrap E self k w0", OF run_and_wrap_not_Threw]
  by (simp add: processFiles_def thenP_Resolved)

lemma processFiles_accept:
  assumes "\<not> manyToMany (opts self)"
    and "checkForCachedValue E self w = (Resolved (k, v), w0)"
    and "truthy v"
    and "acceptsCached v self = Inr True"
    and "mergeCached v self = Inr file"
  shows "processFiles E self w = (Resolved (JArr [JObj file] []), w0)"
  using assms by (simp add: processFiles_def thenP_Resolved)

lemma processFiles_fallthrough:
  assumes "\<not> manyToMany (opts self)"
    and "checkForCachedValue E self w = (Resolved (k, v), w0)"
    and "truthy v"
    and "acceptsCached v self = Inr False"
  shows "processFiles E self w = run_and_wrap E self k w0"
  using assms absorb_not_Threw [of "run_and_wrap E self k w0", OF run_and_wrap_not_Threw]
  by (simp add: processFiles_def thenP_Resolved)

text \<open>
  The two ways in which \<open>processFiles\<close> comes to run the task: the lookup finds
  nothing, or the one-to-one hit is refused.
\<close>

lemma processFiles_runs:
  assumes "checkForCachedValue E self w = (Resolved (k, v), w0)" and "runs_task self v"
  shows "processFiles E self w = run_and_wrap E self k w0"
proof (cases "truthy v")
  case False
  then show ?thesis by (rule processFiles_miss [OF assms(1)])
next
  case True
  with assms(2) have m: "\<not> manyToMany (opts self)" and a: "acceptsCached v self = Inr False"
    by (simp_all add: runs_task_def split: if_splits)
  show ?thesis by (rule processFiles_fallthrough [OF m assms(1) True a])
qed

section \<open>Objects, JSON and restoration\<close>

lemma map_of_foldl_assign:
  "map_of (foldl (\<lambda>t k. case m k of None \<Rightarrow> t | Some v \<Rightarrow> AList.update k v t) t0 ks) k
     = (if k \<in> set ks \<and> m k \<noteq> None then m k else map_of t0 k)"
  by (induction ks arbitrary: t0) (auto simp: update_conv' split: option.splits)

lemma map_of_objectAssign:
  "map_of (objectAssign t s) k = (if k \<in> fst ` set s then map_of s k else map_of t k)"
proof -
  have "k \<in> fst ` set s \<Longrightarrow> map_of s k \<noteq> None"
    by (simp add: map_of_eq_None_iff)
  then show ?thesis
    by (auto simp: objectAssign_def map_of_foldl_assign)
qed

lemma map_of_filter_keys:
  "map_of (filter (\<lambda>(k, v). P k) ps) k = (if P k then map_of ps k else None)"
  by (induction ps) auto

lemma map_of_objectOmit:
  "map_of (objectOmit v ks) k = (if k \<in> set ks then None else map_of (own_props v) k)"
  by (simp add: objectOmit_def map_of_filter_keys)

lemma keys_objectOmit:
  "k \<in> fst ` set (objectOmit v ks) \<longleftrightarrow> k \<notin> set ks \<and> k \<in> fst ` set (own_props v)"
  by (force simp: objectOmit_def)

lemma get_prop_JObj: "get_prop (JObj ps) k = (case map_of ps k of None \<Rightarrow> JUndefined | Some x \<Rightarrow> x)"
  by (simp add: get_prop_def)

lemma get_prop_merge:
  "get_prop (JObj (objectAssign f (objectOmit v structural))) k
     = (if k \<in> set structural then get_prop (JObj f) k
        else if k \<in> fst ` set (own_props v) then get_prop v k
        else get_prop (JObj f) k)"
  by (simp add: get_prop_def map_of_objectAssign keys_objectOmit map_of_objectOmit)


lemma keys_foldl_pick:
  "fst ` set (foldl (\<lambda>res k. case m k of None \<Rightarrow> res | Some v \<Rightarrow> AList.update k v res) acc ks)
     \<subseteq> fst ` set acc \<union> set ks"
proof (induction ks arbitrary: acc)
  case Nil
  then show ?case by simp
next
  case (Cons k ks)
  show ?case
  proof (cases "m k")
    case None
    with Cons.IH [of acc] show ?thesis by auto
  next
    case (Some v)
    from Cons.IH [of "AList.update k v acc"] show ?thesis
      by (auto simp: Some dom_update)
  qed
qed

lemma keys_objectPick: "fst ` set (objectPick v ks) \<subseteq> set ks"
proof (cases v)
  case (JObj ps)
  then show ?thesis using keys_foldl_pick [of "map_of ps" "[]" ks] by simp
next
  case (JBuffer bs)
  then show ?thesis
    using keys_foldl_pick [of "map_of (own_props (JBuffer bs))" "[]" ks] by simp
qed simp_all

lemma key_to_json_props: "(k, j) \<in> set (to_json_props ps) \<Longrightarrow> k \<in> fst ` set ps"
proof (induction ps)
  case Nil
  then show ?case by simp
next
  case (Cons p ps)
  obtain k' v where p: "p = (k', v)" by (cases p)
  show ?case
  proof (cases "to_json v")
    case None
    with Cons p show ?thesis by auto
  next
    case (Some j')
    with Cons p show ?thesis by auto
  qed
qed

lemma keys_to_json_props: "fst ` set (to_json_props ps) \<subseteq> fst ` set ps"
  using key_to_json_props by fastforce

lemma to_json_elems_objects:
  "to_json_elems (map (\<lambda>f. JObj (g f)) outs) = map (\<lambda>f. JsObj (to_json_props (g f))) outs"
  by (induction outs) simp_all

lemma encodeValue_array:
  "encodeValue E self (JArr xs ps) = Inr (Stringified (JsArr (to_json_elems xs)))"
  by (simp add: encodeValue_def Let_def)

lemma json_plain_roundtrip:
  "json_plain v \<Longrightarrow> \<exists>j. to_json v = Some j \<and> of_json j = v"
  "json_plain_elems xs \<Longrightarrow> of_json_elems (to_json_elems xs) = xs"
  "json_plain_props ps \<Longrightarrow> of_json_props (to_json_props ps) = ps"
proof (induction v and xs and ps rule: json_plain_json_plain_elems_json_plain_props.induct)
  case (8 xs ps)
  then show ?case by (simp split: if_splits)
next
  case (11 x xs)
  then show ?case by (auto split: if_splits)
next
  case (13 k v ps)
  then show ?case by (auto split: if_splits)
qed simp_all

lemma bufferFromArray_bytes [simp]:
  "bufferFromArray (map (\<lambda>b. JNum (uint b)) bs) = Some bs"
  by (induction bs) simp_all

lemma of_json_elems_nums [simp]:
  "of_json_elems (map (\<lambda>b. JsNum (uint b)) bs) = map (\<lambda>b. JNum (uint b)) bs"
  by (induction bs) simp_all

lemma distinct_to_json_props:
  "distinct (map fst ps) \<Longrightarrow> distinct (map fst (to_json_props ps))"
proof (induction ps)
  case Nil
  then show ?case by simp
next
  case (Cons p ps)
  obtain k v where p: "p = (k, v)" by (cases p)
  have "k \<notin> fst ` set (to_json_props ps)"
    using Cons.prems keys_to_json_props [of ps] by (auto simp: p)
  with Cons show ?case by (cases "to_json v") (auto simp: p)
qed

lemma keys_of_json_props [simp]: "map fst (of_json_props js) = map fst js"
  by (induction js) auto

lemma map_of_of_json_props:
  "map_of (of_json_props js) k = map_option of_json (map_of js k)"
  by (induction js) auto

lemma map_of_to_json_props:
  "distinct (map fst ps) \<Longrightarrow>
     map_of (to_json_props ps) k = (case map_of ps k of None \<Rightarrow> None | Some v \<Rightarrow> to_json v)"
proof (induction ps)
  case Nil
  then show ?case by simp
next
  case (Cons p ps)
  obtain k' v where p: "p = (k', v)" by (cases p)
  have nk: "k' \<notin> fst ` set ps" using Cons.prems by (auto simp: p)
  then have n1: "map_of ps k' = None" by (simp add: map_of_eq_None_iff)
  have n2: "map_of (to_json_props ps) k' = None"
    using nk keys_to_json_props [of ps] by (auto simp: map_of_eq_None_iff)
  from Cons show ?case
    by (cases "to_json v") (auto simp: p n1 n2)
qed

text \<open>What a property reads as after \<open>JSON.stringify\<close> and \<open>JSON.parse\<close>.\<close>

definition reparsed :: "jsval \<Rightarrow> jsval" where
  "reparsed v = (case to_json v of None \<Rightarrow> JUndefined | Some j \<Rightarrow> of_json j)"

lemma get_prop_reparsed:
  "distinct (map fst ps) \<Longrightarrow>
     get_prop (JObj (of_json_props (to_json_props ps))) k = reparsed (get_prop (JObj ps) k)"
  by (simp add: get_prop_def map_of_of_json_props map_of_to_json_props reparsed_def
        split: option.splits)

lemma reparsed_plain: "json_plain v \<Longrightarrow> reparsed v = v"
  using json_plain_roundtrip(1) [of v] by (auto simp: reparsed_def)

lemma reparsed_undefined [simp]: "reparsed JUndefined = JUndefined"
  by (simp add: reparsed_def)

lemma reparsed_buffer [simp]:
  "reparsed (JBuffer bs)
     = JObj [(''type'', JStr ''Buffer''), (''data'', JArr (map (\<lambda>b. JNum (uint b)) bs) [])]"
  by (simp add: reparsed_def)

lemma keys_File: "k \<in> fst ` set (File (JObj q)) \<longleftrightarrow> k \<in> set retained \<and> k \<in> fst ` set q"
  by (force simp: File_def)

lemma map_of_rebuilt:
  "map_of (objectAssign (File (JObj q)) (objectOmit (JObj q) (map fst (File (JObj q))))) k
     = map_of q k"
proof -
  let ?F = "File (JObj q)"
  let ?X = "objectOmit (JObj q) (map fst ?F)"
  have a: "map_of ?F k = (if k \<in> set retained then map_of q k else None)"
    by (simp add: File_def map_of_filter_keys)
  have kx: "k \<in> fst ` set ?X \<longleftrightarrow> k \<notin> set retained \<and> k \<in> fst ` set q"
    using keys_objectOmit [of k "JObj q" "map fst ?F"] keys_File [of k q] by auto
  have mx: "k \<notin> set retained \<Longrightarrow> map_of ?X k = map_of q k"
    using keys_File [of k q] by (simp add: map_of_objectOmit)
  have n: "k \<notin> fst ` set q \<Longrightarrow> map_of q k = None"
    by (simp add: map_of_eq_None_iff)
  show ?thesis
  proof (cases "k \<in> set retained")
    case True
    then show ?thesis by (simp add: map_of_objectAssign kx a)
  next
    case False
    show ?thesis
    proof (cases "k \<in> fst ` set q")
      case True
      with False show ?thesis by (simp add: map_of_objectAssign kx mx)
    next
      case nk: False
      with False show ?thesis by (simp add: map_of_objectAssign kx a n)
    qed
  qed
qed

lemma get_prop_rebuilt:
  "get_prop (JObj (objectAssign (File (JObj q)) (objectOmit (JObj q) (map fst (File (JObj q)))))) k
     = get_prop (JObj q) k"
  by (simp add: get_prop_def map_of_rebuilt)

lemma get_prop_update:
  "get_prop (JObj (AList.update k' x ps)) k = (if k = k' then x else get_prop (JObj ps) k)"
  by (simp add: get_prop_def update_conv')

lemma restoreFileFromObj_artifact:
  assumes "distinct (map fst q)"
    and "artifact_contents (get_prop (JObj q) ''contents'')"
  shows "\<exists>r. restoreFileFromObj E (JObj (of_json_props (to_json_props q))) = Inr (JObj r)
     \<and> (\<forall>k. get_prop (JObj r) k
            = (if k = ''contents'' then get_prop (JObj q) ''contents''
               else reparsed (get_prop (JObj q) k)))"
proof -
  let ?q3 = "of_json_props (to_json_props q)"
  have g: "get_prop (JObj ?q3) k = reparsed (get_prop (JObj q) k)" for k
    by (rule get_prop_reparsed [OF assms(1)])
  show ?thesis
  proof (cases "get_prop (JObj q) ''contents''")
    case (JBuffer bs)
    have c: "get_prop (JObj ?q3) ''contents''
        = JObj [(''type'', JStr ''Buffer''), (''data'', JArr (map (\<lambda>b. JNum (uint b)) bs) [])]"
      by (simp add: g JBuffer)
    have d: "get_prop (JObj [(''type'', JStr ''Buffer''), (''data'', x)]) ''data'' = x" for x
      by (simp add: get_prop_def)
    have r: "restoreFileFromObj E (JObj ?q3)
        = Inr (JObj (objectAssign (File (JObj (AList.update ''contents'' (JBuffer bs) ?q3)))
                 (objectOmit (JObj (AList.update ''contents'' (JBuffer bs) ?q3))
                    (map fst (File (JObj (AList.update ''contents'' (JBuffer bs) ?q3)))))))"
      by (simp add: restoreFileFromObj_def restore_contents_def c d Let_def)
    show ?thesis
      by (simp add: r get_prop_rebuilt get_prop_update g JBuffer)
  next
    case JNull
    have c: "get_prop (JObj ?q3) ''contents'' = JNull"
      by (simp add: g JNull reparsed_def)
    have r: "restoreFileFromObj E (JObj ?q3)
        = Inr (JObj (objectAssign (File (JObj ?q3))
                 (objectOmit (JObj ?q3) (map fst (File (JObj ?q3))))))"
      by (simp add: restoreFileFromObj_def restore_contents_def c Let_def)
    show ?thesis
      by (auto simp: r get_prop_rebuilt g JNull reparsed_def)
  qed (use assms(2) in simp_all)
qed

lemma distinct_foldl_pick:
  "distinct (map fst acc) \<Longrightarrow>
     distinct (map fst (foldl (\<lambda>res k. case m k of None \<Rightarrow> res | Some v \<Rightarrow> AList.update k v res) acc ks))"
  by (induction ks arbitrary: acc) (auto simp: distinct_update split: option.splits)

lemma distinct_objectPick: "distinct (map fst (objectPick v ks))"
proof (cases v)
  case (JObj ps)
  then show ?thesis using distinct_foldl_pick [of "[]" "map_of ps" ks] by simp
next
  case (JBuffer bs)
  then show ?thesis
    using distinct_foldl_pick [of "[]" "map_of (own_props (JBuffer bs))" ks] by simp
qed simp_all

lemma get_prop_fileToObj:
  "get_prop (JObj (fileToObj (JObj ps))) k
     = (if k \<in> set retained then get_prop (JObj ps) k else JUndefined)"
  by (auto simp: get_prop_def fileToObj_def map_of_foldl_assign split: option.splits)

lemma distinct_stamped: "distinct (map fst q) \<Longrightarrow> distinct (map fst (stamped self q))"
  by (simp add: stamped_def distinct_update)

lemma get_prop_stamped:
  "k \<in> set retained \<Longrightarrow> get_prop (JObj (stamped self q)) k = get_prop (JObj q) k"
  by (auto simp: stamped_def get_prop_update retained_def)

lemma encodeValue_object:
  "encodeValue E self (JObj q) = Inr (Stringified (JsObj (to_json_props (stamped self q))))"
  by (simp add: encodeValue_def stamped_def Let_def)

lemma reparsed_reproducible:
  "k \<noteq> ''contents'' \<Longrightarrow> reproducible k v \<Longrightarrow> reparsed v = v"
  by (auto simp: reproducible_def reparsed_plain split: if_splits)

section \<open>A falsy key\<close>

text \<open>
  C6. When the key function yields a falsy key (as a plain value or through a
  promise), the invocation is a miss without any store call: the calls it makes are the
  key function call and then the task's writes, nothing else; so \<open>getCached\<close> and
  \<open>addCached\<close> are never called, the task is run, and the store is as before. This
  holds whatever the task emits and whatever the success predicate answers.
\<close>

theorem C6_falsy_key_bypasses_store:
  assumes "task self = Some t"
    and "key (opts self) (key_arg self) = Plain k \<or> key (opts self) (key_arg self) = Fulfilled k"
    and "\<not> truthy k"
  shows "calls (snd (processFiles E self w)) = calls w @ KeyCall (key_arg self) # task_calls self
       \<and> \<not> list_ex isStoreCall (new_calls w (snd (processFiles E self w)))
       \<and> list_ex isTaskCall (new_calls w (snd (processFiles E self w)))
       \<and> cache (snd (processFiles E self w)) = cache w"
proof -
  let ?w1 = "log_call (KeyCall (key_arg self)) w"
  have gk: "getFileKey E self w = (Resolved k, ?w1)"
    using assms(2,3) by (auto simp: getFileKey_def Let_def thenP_def hash_key_def)
  have ck: "checkForCachedValue E self w = (Resolved (k, JNull), ?w1)"
    using assms(3) by (simp add: checkForCachedValue_def gk thenP_def)
  have pf: "processFiles E self w = run_and_wrap E self k ?w1"
    by (rule processFiles_miss [OF ck]) simp
  obtain r w' where rw: "run_and_wrap E self k ?w1 = (r, w')"
    by (cases "run_and_wrap E self k ?w1")
  from run_and_wrap_world [OF rw] obtain r0 where
    "runProxiedTaskAndCache E self k ?w1 = (r0, w')" by blast
  from runProxiedTaskAndCache_falsy_frame [OF assms(1) assms(3) this]
  have f: "calls w' = calls w @ KeyCall (key_arg self) # task_calls self" "cache w' = cache w"
    by simp_all
  have nc: "new_calls w (snd (processFiles E self w)) = KeyCall (key_arg self) # task_calls self"
    using pf rw f by (simp add: new_calls_def)
  show ?thesis
    using pf rw f nc task_calls_no_store [of self] task_calls_task [of self]
    by simp
qed

theorem C6_falsy_key_witness:
  "task noKeyProxy = Some renameTask
   \<and> key (opts noKeyProxy) (key_arg noKeyProxy) = Plain JNull
   \<and> \<not> truthy JNull
   \<and> calls (snd (processFiles env0 noKeyProxy world0))
       = calls world0 @ KeyCall (key_arg noKeyProxy) # task_calls noKeyProxy
   \<and> \<not> list_ex isStoreCall (new_calls world0 (snd (processFiles env0 noKeyProxy world0)))
   \<and> list_ex isTaskCall (new_calls world0 (snd (processFiles env0 noKeyProxy world0)))
   \<and> cache (snd (processFiles env0 noKeyProxy world0)) = cache world0"
proof -
  have t: "task noKeyProxy = Some renameTask"
    by (simp add: noKeyProxy_def TaskProxy_def)
  have k: "key (opts noKeyProxy) (key_arg noKeyProxy) = Plain JNull"
    by (simp add: noKeyProxy_def TaskProxy_def noKeyOptions_def)
  have f: "\<not> truthy JNull" by simp
  show ?thesis
    using C6_falsy_key_bypasses_store [OF t disjI1 [OF k] f, of env0 world0] t k
    by simp
qed

section \<open>The success predicate\<close>

lemma check_fileA:
  assumes "files self = [fileA]" and "opts self = (defaultOptions env0 False)\<lparr>success := sc, value_opt := vo\<rparr>"
  shows "checkForCachedValue env0 self world0 = (Resolved (keyA, JNull), worldA)"
  using assms
  by (simp add: checkForCachedValue_def getFileKey_def file0_def
        defaultOptions_def key_arg_def defaultKey_def contents_base64_def fileA_def
        get_prop_def env0_def thenP_def hash_key_def Let_def world0_def keyA_def worldA_def
        log_call_def log_calls_def)

lemma run_fileA:
  assumes "files self = [fileA]" and "manyToMany (opts self) = False" and "task self = Some renameTask"
  shows "runProxiedTask self worldA = (Resolved [JObj outB], worldA_run)"
  using assms
  by (simp add: runProxiedTask_def task_inputs_def task_calls_def file0_def renameTask_def
        handleEnd_def worldA_run_def log_call_def)

text \<open>
  C3, as stated, fails on the code in two ways. A predicate that answers through a
  promise is never awaited: the promise object is truthy, so an asynchronous "failure"
  is cached all the same. And the boolean \<open>false\<close> is called as if it were a function:
  the invocation is rejected with a TypeError instead of resolving with the output.
\<close>

theorem C3_counterexample:
  "map_of (cache (snd (processFiles env0 asyncFailProxy world0))) (''default'', keyA) \<noteq> None
   \<and> list_ex isAddCached (new_calls world0 (snd (processFiles env0 asyncFailProxy world0)))
   \<and> fst (processFiles env0 falseProxy world0) = Rejected TypeError"
proof -
  have c1: "checkForCachedValue env0 asyncFailProxy world0 = (Resolved (keyA, JNull), worldA)"
    by (rule check_fileA [where vo = "ValueFn (defaultValue False)"])
       (simp_all add: asyncFailProxy_def TaskProxy_def defaultOptions_def)
  have r1: "runProxiedTask asyncFailProxy worldA = (Resolved [JObj outB], worldA_run)"
    by (rule run_fileA) (simp_all add: asyncFailProxy_def TaskProxy_def defaultOptions_def)
  have c2: "checkForCachedValue env0 falseProxy world0 = (Resolved (keyA, JNull), worldA)"
    by (rule check_fileA [where vo = "ValueFn (defaultValue False)"])
       (simp_all add: falseProxy_def TaskProxy_def defaultOptions_def)
  have r2: "runProxiedTask falseProxy worldA = (Resolved [JObj outB], worldA_run)"
    by (rule run_fileA) (simp_all add: falseProxy_def TaskProxy_def defaultOptions_def)
  have k: "truthy keyA" by (simp add: keyA_def)
  have o2: "success (opts falseProxy) = SuccessValue (JBool False)"
    by (simp add: falseProxy_def TaskProxy_def)
  have "processFiles env0 falseProxy world0 = run_and_wrap env0 falseProxy keyA worldA"
    by (rule processFiles_miss [OF c2]) simp
  then have p2: "processFiles env0 falseProxy world0 = (Rejected TypeError, worldA_run)"
    by (simp add: run_and_wrap_def runProxiedTaskAndCache_def r2 thenP_def isSuccess_def o2)
  have o1: "success (opts asyncFailProxy) = SuccessFn (\<lambda>out. Fulfilled (JBool False))"
    "value_opt (opts asyncFailProxy) = ValueFn (defaultValue False)"
    "manyToMany (opts asyncFailProxy) = False"
    "originalPaths asyncFailProxy = [JStr ''/a.txt'']"
    "name (opts asyncFailProxy) = ''default''"
    by (simp_all add: asyncFailProxy_def TaskProxy_def defaultOptions_def fileA_def get_prop_def)
  have "\<exists>val. encodeValue env0 asyncFailProxy (JObj (fileToObj (JObj outB))) = Inr val"
    by (simp add: encodeValue_def o1 fileToObj_def retained_def outB_def get_prop_def
          strict_eq_def Let_def)
  then obtain val where ev: "encodeValue env0 asyncFailProxy (JObj (fileToObj (JObj outB))) = Inr val"
    by blast
  have s1': "storeCachedResult env0 asyncFailProxy keyA [JObj outB] worldA_run
              = (Resolved (), addCached ''default'' keyA val worldA_run)"
    using k
    by (simp add: storeCachedResult_def getValueFromResult_def thenP_def o1 defaultValue_def
          result_arg_def ev)
  have "processFiles env0 asyncFailProxy world0 = run_and_wrap env0 asyncFailProxy keyA worldA"
    by (rule processFiles_miss [OF c1]) simp
  then have p1: "processFiles env0 asyncFailProxy world0
              = (Resolved (JArr [JObj outB] []), addCached ''default'' keyA val worldA_run)"
    by (simp add: run_and_wrap_def runProxiedTaskAndCache_def r1 thenP_def isSuccess_def o1 s1'
          result_arg_def)
  have n: "new_calls world0 (addCached ''default'' keyA val worldA_run)
             = [KeyCall (JObj fileA), GetCached ''default'' keyA, TaskWrite (JObj fileA),
                AddCached ''default'' keyA val]"
    by (simp add: new_calls_def addCached_def worldA_run_def worldA_def world0_def)
  show ?thesis
    by (simp add: p1 p2 n) (simp add: addCached_def update_conv')
qed

text \<open>
  C3, amended. For every cache-miss invocation whose success option is a function that
  synchronously returns a falsy value on the task's output, no entry is added to the
  store (the store is as before and no \<open>addCached\<close> call is made) and the invocation
  resolves with the task's outputs unchanged.
\<close>

theorem C3_sync_failure_not_cached:
  assumes "checkForCachedValue E self w = (Resolved (k, v), w0)"
    and "\<not> truthy v"
    and "runProxiedTask self w0 = (Resolved out, w1)"
    and "success (opts self) = SuccessFn f"
    and "f (result_arg self out) = Plain r"
    and "\<not> truthy r"
  shows "processFiles E self w = (Resolved (JArr out []), w1)
       \<and> cache w1 = cache w
       \<and> \<not> list_ex isAddCached (new_calls w w1)"
proof -
  have pf: "processFiles E self w = (Resolved (JArr out []), w1)"
    using assms(3-6)
    by (simp add: processFiles_miss [OF assms(1,2)] run_and_wrap_def
          runProxiedTaskAndCache_def thenP_def isSuccess_def)
  from runProxiedTask_Resolved_task [OF assms(3)] obtain t where t: "task self = Some t"
    by blast
  from runProxiedTask_frame [OF t assms(3)]
  have f1: "calls w1 = calls w0 @ task_calls self" "cache w1 = cache w0" by simp_all
  from checkForCachedValue_frame [OF assms(1)] obtain l where
    f0: "cache w0 = cache w" "calls w0 = calls w @ l" "\<not> list_ex isAddCached l"
    by blast
  have "new_calls w w1 = l @ task_calls self"
    using f0 f1 by (simp add: new_calls_def)
  then have "\<not> list_ex isAddCached (new_calls w w1)"
    using f0(3) task_calls_no_add [of self] by (auto simp: list_ex_iff)
  then show ?thesis using pf f0 f1 by simp
qed

theorem C3_sync_failure_witness:
  "processFiles env0 syncFailProxy world0 = (Resolved (JArr [JObj outB] []), worldA_run)
   \<and> cache worldA_run = cache world0
   \<and> \<not> list_ex isAddCached (new_calls world0 worldA_run)"
proof -
  have c: "checkForCachedValue env0 syncFailProxy world0 = (Resolved (keyA, JNull), worldA)"
    by (rule check_fileA [where vo = "ValueFn (defaultValue False)"])
       (simp_all add: syncFailProxy_def TaskProxy_def defaultOptions_def)
  have r: "runProxiedTask syncFailProxy worldA = (Resolved [JObj outB], worldA_run)"
    by (rule run_fileA) (simp_all add: syncFailProxy_def TaskProxy_def defaultOptions_def)
  have s: "success (opts syncFailProxy) = SuccessFn (\<lambda>out. Plain (JBool False))"
    by (simp add: syncFailProxy_def TaskProxy_def)
  have m: "\<not> truthy JNull" and n: "\<not> truthy (JBool False)" by simp_all
  show ?thesis
    by (rule C3_sync_failure_not_cached [OF c m r s refl n])
qed

section \<open>No value-extraction rule\<close>

text \<open>
  C5 at the failing input. With a \<open>value\<close> option that is neither a function nor a
  string, a truthy key, a task that succeeds and a success predicate that passes, the
  extraction yields \<open>undefined\<close> and the store callback reads \<open>value.path\<close> of it:
  the invocation is rejected with a TypeError. Nothing is added to the store, as the
  claim says, but the task's outputs are not returned.
\<close>

theorem C5_no_value_rejects:
  assumes "checkForCachedValue E self w = (Resolved (k, v), w0)"
    and "\<not> truthy v"
    and "truthy k"
    and "runProxiedTask self w0 = (Resolved out, w1)"
    and "isSuccess (opts self) (result_arg self out) = Inr True"
    and "value_opt (opts self) = ValueOther"
  shows "processFiles E self w = (Rejected TypeError, w1)
       \<and> cache w1 = cache w
       \<and> \<not> list_ex isAddCached (new_calls w w1)"
proof -
  have st: "storeCachedResult E self k out w1 = (Rejected TypeError, w1)"
    using assms(3,6)
    by (simp add: storeCachedResult_def getValueFromResult_def encodeValue_def thenP_def Let_def)
  have pf: "processFiles E self w = (Rejected TypeError, w1)"
    using assms(4,5)
    by (simp add: processFiles_miss [OF assms(1,2)] run_and_wrap_def
          runProxiedTaskAndCache_def thenP_def st)
  from runProxiedTask_Resolved_task [OF assms(4)] obtain t where t: "task self = Some t"
    by blast
  from runProxiedTask_frame [OF t assms(4)]
  have f1: "calls w1 = calls w0 @ task_calls self" "cache w1 = cache w0" by simp_all
  from checkForCachedValue_frame [OF assms(1)] obtain l where
    f0: "cache w0 = cache w" "calls w0 = calls w @ l" "\<not> list_ex isAddCached l"
    by blast
  have "new_calls w w1 = l @ task_calls self"
    using f0 f1 by (simp add: new_calls_def)
  then have "\<not> list_ex isAddCached (new_calls w w1)"
    using f0(3) task_calls_no_add [of self] by (auto simp: list_ex_iff)
  then show ?thesis using pf f0 f1 by simp
qed

theorem C5_no_value_witness:
  "truthy keyA
   \<and> value_opt (opts noValueProxy) = ValueOther
   \<and> processFiles env0 noValueProxy world0 = (Rejected TypeError, worldA_run)
   \<and> cache worldA_run = cache world0
   \<and> \<not> list_ex isAddCached (new_calls world0 worldA_run)"
proof -
  have c: "checkForCachedValue env0 noValueProxy world0 = (Resolved (keyA, JNull), worldA)"
    by (rule check_fileA [where vo = ValueOther and sc = "SuccessValue (JBool True)"])
       (simp_all add: noValueProxy_def TaskProxy_def defaultOptions_def)
  have r: "runProxiedTask noValueProxy worldA = (Resolved [JObj outB], worldA_run)"
    by (rule run_fileA) (simp_all add: noValueProxy_def TaskProxy_def defaultOptions_def)
  have s: "isSuccess (opts noValueProxy) (result_arg noValueProxy [JObj outB]) = Inr True"
    by (simp add: isSuccess_def noValueProxy_def TaskProxy_def defaultOptions_def)
  have vo: "value_opt (opts noValueProxy) = ValueOther"
    by (simp add: noValueProxy_def TaskProxy_def)
  have m: "\<not> truthy JNull" by simp
  have k: "truthy keyA" by (simp add: keyA_def)
  show ?thesis
    using C5_no_value_rejects [OF c m k r s vo] k vo by simp
qed

section \<open>The default key\<close>

lemma contents_base64_blob:
  "has_blob f \<Longrightarrow> contents_base64 E (JObj f) = Inr (blob_base64 E f)"
  by (cases "get_prop (JObj f) ''contents''")
     (simp_all add: has_blob_def contents_base64_def blob_base64_def)

lemma join_contents_blobs:
  "list_all has_blob fs \<Longrightarrow>
     join_contents E (map JObj fs) = Inr (concat (map (blob_base64 E) fs))"
  by (induction fs) (simp_all add: contents_base64_blob)

lemma blob_base64_cong:
  "get_prop (JObj f') ''contents'' = get_prop (JObj f) ''contents'' \<Longrightarrow>
     blob_base64 E f' = blob_base64 E f"
  by (simp add: blob_base64_def)

lemma default_key_m2m:
  assumes "VERSION E \<noteq> []" and "list_all has_blob gs"
  shows "fst (getFileKey E (TaskProxy u gs (defaultOptions E True)) x)
           = Resolved (JStr (hex128 (md5 E (VERSION E @ concat (map (blob_base64 E) gs)))))"
  using assms(1) join_contents_blobs [OF assms(2), of E]
  by (simp add: getFileKey_def key_arg_def TaskProxy_def defaultOptions_def defaultKey_def
        thenP_def hash_key_def Let_def)

lemma default_key_one:
  assumes "VERSION E \<noteq> []" and "has_blob g"
  shows "fst (getFileKey E (TaskProxy u [g] (defaultOptions E False)) x)
           = Resolved (JStr (hex128 (md5 E (VERSION E @ blob_base64 E g))))"
  using assms(1) contents_base64_blob [OF assms(2), of E]
  by (simp add: getFileKey_def key_arg_def file0_def TaskProxy_def defaultOptions_def
        defaultKey_def thenP_def hash_key_def Let_def)

lemma default_key_blobs:
  assumes "VERSION E \<noteq> []" and "list_all has_blob gs" and "m2m \<or> length gs = 1"
  shows "fst (getFileKey E (TaskProxy u gs (defaultOptions E m2m)) x)
           = Resolved (JStr (hex128 (md5 E (VERSION E @ concat (map (blob_base64 E) gs)))))"
proof (cases m2m)
  case True
  then show ?thesis using default_key_m2m [OF assms(1,2)] by simp
next
  case False
  with assms(3) obtain g where g: "gs = [g]"
    by (cases gs) simp_all
  with assms(2) have "has_blob g" by simp
  from default_key_one [OF assms(1) this] show ?thesis
    using False g by simp
qed

lemma same_contents:
  "map (\<lambda>f. get_prop (JObj f) ''contents'') fs' = map (\<lambda>f. get_prop (JObj f) ''contents'') fs \<Longrightarrow>
     map (blob_base64 E) fs' = map (blob_base64 E) fs
     \<and> list_all has_blob fs' = list_all has_blob fs
     \<and> length fs' = length fs"
proof (induction fs arbitrary: fs')
  case Nil
  then show ?case by simp
next
  case (Cons f fs)
  then obtain g gs where g: "fs' = g # gs" by (cases fs') simp_all
  with Cons.prems have h: "get_prop (JObj g) ''contents'' = get_prop (JObj f) ''contents''"
    and t: "map (\<lambda>f. get_prop (JObj f) ''contents'') gs = map (\<lambda>f. get_prop (JObj f) ''contents'') fs"
    by simp_all
  from Cons.IH [OF t] h show ?case
    by (simp add: g blob_base64_def has_blob_def)
qed

text \<open>
  C7. For input artifacts whose contents are Buffers, the key of the invocation under
  the default key function is the hexadecimal rendering of the 128-bit digest of the
  version tag followed by the base64 texts of the contents, in input order (all inputs
  in many-to-many mode, the one input in one-to-one mode). The version tag is the
  version of the package and so a non-empty string. The right-hand side depends on the
  version and the contents only, so two batches with the same contents get the same
  key, in any state of the world.
\<close>

theorem C7_default_key:
  assumes "VERSION E \<noteq> []"
    and "list_all has_blob fs"
    and "m2m \<or> length fs = 1"
    and "map (\<lambda>f. get_prop (JObj f) ''contents'') fs' = map (\<lambda>f. get_prop (JObj f) ''contents'') fs"
  shows "fst (getFileKey E (TaskProxy t fs (defaultOptions E m2m)) w)
           = Resolved (JStr (hex128 (md5 E (VERSION E @ concat (map (blob_base64 E) fs)))))
       \<and> fst (getFileKey E (TaskProxy t' fs' (defaultOptions E m2m)) w')
           = fst (getFileKey E (TaskProxy t fs (defaultOptions E m2m)) w)"
proof -
  from same_contents [OF assms(4), of E]
  have s: "map (blob_base64 E) fs' = map (blob_base64 E) fs"
    and b: "list_all has_blob fs'" and l: "m2m \<or> length fs' = 1"
    using assms(2,3) by simp_all
  show ?thesis
    by (simp only: default_key_blobs [OF assms(1,2,3)] default_key_blobs [OF assms(1) b l] s)
qed

theorem C7_default_key_witness:
  "VERSION env0 \<noteq> []
   \<and> list_all has_blob [fileA, fileB]
   \<and> fst (getFileKey env0 (TaskProxy (Some renameTask) [fileA, fileB] (defaultOptions env0 True)) world0)
       = Resolved (JStr (hex128 (md5 env0 (VERSION env0 @ concat (map (blob_base64 env0) [fileA, fileB])))))
   \<and> fst (getFileKey env0 (TaskProxy None [fileB, fileA] (defaultOptions env0 True)) worldA)
       = fst (getFileKey env0 (TaskProxy (Some renameTask) [fileA, fileB] (defaultOptions env0 True)) world0)"
proof -
  have v: "VERSION env0 \<noteq> []" by (simp add: env0_def)
  have b: "list_all has_blob [fileA, fileB]"
    by (simp add: has_blob_def fileA_def fileB_def get_prop_def)
  have m: "True \<or> length [fileA, fileB] = 1" by simp
  have c: "map (\<lambda>f. get_prop (JObj f) ''contents'') [fileB, fileA]
         = map (\<lambda>f. get_prop (JObj f) ''contents'') [fileA, fileB]"
    by (simp add: fileA_def fileB_def get_prop_def)
  show ?thesis
    using C7_default_key [OF v b m c, of "Some renameTask" world0 None worldA] v b by blast
qed

section \<open>The accepted hit\<close>

lemma mergeCached_props:
  assumes "files self = f # fs"
  shows "\<exists>file. mergeCached v self = Inr file
     \<and> (\<forall>p. get_prop (JObj file) p =
          (if p = ''path'' then
             (if truthy (get_prop v ''path'') \<and> truthy (get_prop v ''filePathChangedInsideTask'')
              then get_prop v ''path'' else get_prop (JObj f) ''path'')
           else if p \<in> set structural then get_prop (JObj f) p
           else if p \<in> fst ` set (own_props v) then get_prop v p
           else get_prop (JObj f) p))"
proof (cases "truthy (get_prop v ''path'') \<and> truthy (get_prop v ''filePathChangedInsideTask'')")
  case True
  then have m: "mergeCached v self
      = Inr (AList.update ''path'' (get_prop v ''path'') (objectAssign f (objectOmit v structural)))"
    using assms by (simp add: mergeCached_def)
  have "get_prop (JObj (AList.update ''path'' x ps)) p
          = (if p = ''path'' then x else get_prop (JObj ps) p)" for x ps p
    by (simp add: get_prop_def update_conv')
  then show ?thesis
    using True by (simp add: m get_prop_merge)
next
  case False
  then have m: "mergeCached v self = Inr (objectAssign f (objectOmit v structural))"
    using assms by (auto simp: mergeCached_def)
  have "''path'' \<in> set structural" by (simp add: structural_def)
  then show ?thesis
    using False by (auto simp: m get_prop_merge)
qed

text \<open>
  C8. When a one-to-one hit is accepted, the invocation resolves, in the world as the
  lookup left it, with the one input artifact onto which the cached value has been
  merged: the fields \<open>cwd\<close>, \<open>base\<close>, \<open>stat\<close> and \<open>history\<close> are the input's own; the
  path is the input's own unless the cached value has a truthy path and marks the path
  as changed inside the task, when it is the cached path; every other property is the
  cached value's where the cached value has it, and the input's otherwise.
\<close>

theorem C8_accepted_hit_merge:
  assumes "\<not> manyToMany (opts self)"
    and "checkForCachedValue E self w = (Resolved (k, v), w0)"
    and "truthy v"
    and "acceptsCached v self = Inr True"
    and "files self = f # fs"
  shows "\<exists>file. processFiles E self w = (Resolved (JArr [JObj file] []), w0)
     \<and> (\<forall>p. get_prop (JObj file) p =
          (if p = ''path'' then
             (if truthy (get_prop v ''path'') \<and> truthy (get_prop v ''filePathChangedInsideTask'')
              then get_prop v ''path'' else get_prop (JObj f) ''path'')
           else if p \<in> set structural then get_prop (JObj f) p
           else if p \<in> fst ` set (own_props v) then get_prop v p
           else get_prop (JObj f) p))"
proof -
  from mergeCached_props [OF assms(5), of v] obtain merged where
    m: "mergeCached v self = Inr merged"
    and p: "\<forall>p. get_prop (JObj merged) p =
          (if p = ''path'' then
             (if truthy (get_prop v ''path'') \<and> truthy (get_prop v ''filePathChangedInsideTask'')
              then get_prop v ''path'' else get_prop (JObj f) ''path'')
           else if p \<in> set structural then get_prop (JObj f) p
           else if p \<in> fst ` set (own_props v) then get_prop v p
           else get_prop (JObj f) p)"
    by blast
  from processFiles_accept [OF assms(1,2,3,4) m] p show ?thesis by blast
qed

lemma encode_outB:
  "encodeValue env0 proxyA (JObj (fileToObj (JObj outB))) = Inr (Stringified storedB)"
  by code_simp

lemma decode_storedB:
  "decodeCached env0 (defaultOptions env0 False) (Stringified storedB) = Inr cachedB"
  by code_simp

lemma first_run_stores:
  "processFiles env0 proxyA world0
     = (Resolved (JArr [JObj outB] []), addCached ''default'' keyA (Stringified storedB) worldA_run)"
proof -
  have o: "success (opts proxyA) = SuccessValue (JBool True)"
    "value_opt (opts proxyA) = ValueFn (defaultValue False)"
    "manyToMany (opts proxyA) = False" "name (opts proxyA) = ''default''"
    "files proxyA = [fileA]" "task proxyA = Some renameTask"
    "opts proxyA = (defaultOptions env0 False)\<lparr>success := SuccessValue (JBool True), value_opt := ValueFn (defaultValue False)\<rparr>"
    by (simp_all add: proxyA_def TaskProxy_def defaultOptions_def)
  have c: "checkForCachedValue env0 proxyA world0 = (Resolved (keyA, JNull), worldA)"
    by (rule check_fileA [OF o(5) o(7)])
  have r: "runProxiedTask proxyA worldA = (Resolved [JObj outB], worldA_run)"
    by (rule run_fileA [OF o(5) o(3) o(6)])
  have k: "truthy keyA" by (simp add: keyA_def)
  have s: "storeCachedResult env0 proxyA keyA [JObj outB] worldA_run
              = (Resolved (), addCached ''default'' keyA (Stringified storedB) worldA_run)"
    using k
    by (simp add: storeCachedResult_def getValueFromResult_def thenP_def o(1-4) defaultValue_def
          result_arg_def encode_outB)
  have "processFiles env0 proxyA world0 = run_and_wrap env0 proxyA keyA worldA"
    by (rule processFiles_miss [OF c]) simp
  then show ?thesis
    by (simp add: run_and_wrap_def runProxiedTaskAndCache_def r thenP_def isSuccess_def o(1-4) s
          result_arg_def)
qed

lemma check_stored:
  assumes "files self = [f]"
    and "get_prop (JObj f) ''contents'' = JBuffer [97, 98, 99]"
    and "opts self = defaultOptions env0 False"
  shows "checkForCachedValue env0 self worldStored
     = (Resolved (keyA, cachedB),
        log_call (GetCached ''default'' keyA) (log_call (KeyCall (JObj f)) worldStored))"
proof -
  have g: "getFileKey env0 self worldStored = (Resolved keyA, log_call (KeyCall (JObj f)) worldStored)"
    using assms
    by (simp add: getFileKey_def file0_def defaultOptions_def key_arg_def defaultKey_def
          contents_base64_def env0_def thenP_def hash_key_def Let_def keyA_def)
  have k: "truthy keyA" by (simp add: keyA_def)
  have n: "name (opts self) = ''default''" using assms(3) by (simp add: defaultOptions_def)
  have cs: "cache worldStored = [((''default'', keyA), Stringified storedB)]"
    by (simp add: worldStored_def)
  have d: "decodeCached env0 (opts self) (Stringified storedB) = Inr cachedB"
    by (simp add: assms(3) decode_storedB)
  show ?thesis
    using k by (simp add: checkForCachedValue_def g thenP_def n d cs Let_def)
qed


theorem C8_accepted_hit_witness:
  "\<exists>merged. processFiles env0 proxyA worldStored
       = (Resolved (JArr [JObj merged] []),
          log_call (GetCached ''default'' keyA) (log_call (KeyCall (JObj fileA)) worldStored))
     \<and> get_prop (JObj merged) ''path'' = JStr ''/b.txt''
     \<and> get_prop (JObj merged) ''history'' = JArr [JStr ''/a.txt''] []
     \<and> get_prop (JObj merged) ''contents'' = JBuffer [65, 66, 255]"
proof -
  have o: "\<not> manyToMany (opts proxyA)" "files proxyA = [fileA]"
    "opts proxyA = defaultOptions env0 False"
    by (simp_all add: proxyA_def TaskProxy_def defaultOptions_def)
  have b: "get_prop (JObj fileA) ''contents'' = JBuffer [97, 98, 99]"
    by (simp add: fileA_def get_prop_def)
  have t: "truthy cachedB" by (simp add: cachedB_def)
  have a: "acceptsCached cachedB proxyA = Inr True"
    by (simp add: acceptsCached_def cachedB_def get_prop_def file0_def o(2) fileA_def strict_eq_def)
  from C8_accepted_hit_merge [OF o(1) check_stored [OF o(2) b o(3)] t a o(2)]
  obtain merged where
    p: "processFiles env0 proxyA worldStored
       = (Resolved (JArr [JObj merged] []),
          log_call (GetCached ''default'' keyA) (log_call (KeyCall (JObj fileA)) worldStored))"
    and g: "\<And>p. get_prop (JObj merged) p =
          (if p = ''path'' then
             (if truthy (get_prop cachedB ''path'') \<and> truthy (get_prop cachedB ''filePathChangedInsideTask'')
              then get_prop cachedB ''path'' else get_prop (JObj fileA) ''path'')
           else if p \<in> set structural then get_prop (JObj fileA) p
           else if p \<in> fst ` set (own_props cachedB) then get_prop cachedB p
           else get_prop (JObj fileA) p)"
    by blast
  have "get_prop (JObj merged) ''path'' = JStr ''/b.txt''"
    using g [of "''path''"] by (simp add: cachedB_def get_prop_def)
  moreover have "get_prop (JObj merged) ''history'' = JArr [JStr ''/a.txt''] []"
    using g [of "''history''"] by (simp add: structural_def fileA_def get_prop_def)
  moreover have "get_prop (JObj merged) ''contents'' = JBuffer [65, 66, 255]"
    using g [of "''contents''"] by (simp add: structural_def cachedB_def get_prop_def)
  ultimately show ?thesis using p by blast
qed


section \<open>Accepting or bypassing a hit\<close>

lemma run_and_wrap_task_calls:
  assumes "task self = Some t" and "calls w0 = calls w @ l0"
  shows "list_ex isTaskCall (new_calls w (snd (run_and_wrap E self k w0)))"
proof -
  obtain r w' where rw: "run_and_wrap E self k w0 = (r, w')"
    by (cases "run_and_wrap E self k w0")
  from run_and_wrap_world [OF rw] obtain r0 where
    rc: "runProxiedTaskAndCache E self k w0 = (r0, w')" by blast
  obtain r1 w1 where rt: "runProxiedTask self w0 = (r1, w1)"
    by (cases "runProxiedTask self w0")
  from runProxiedTask_frame [OF assms(1) rt]
  have f: "calls w1 = calls w0 @ task_calls self" by simp
  have ext: "\<exists>l. calls w' = calls w1 @ l"
  proof (cases r1)
    case (Resolved out)
    show ?thesis
    proof (cases "isSuccess (opts self) (result_arg self out)")
      case (Inl e)
      with rc rt Resolved show ?thesis
        by (simp add: runProxiedTaskAndCache_def thenP_def)
    next
      case (Inr ok)
      show ?thesis
      proof (cases ok)
        case False
        with rc rt Resolved Inr show ?thesis
          by (simp add: runProxiedTaskAndCache_def thenP_def)
      next
        case True
        obtain r2 w2 where st: "storeCachedResult E self k out w1 = (r2, w2)"
          by (cases "storeCachedResult E self k out w1")
        then have "\<exists>l. calls w2 = calls w1 @ l"
          by (cases "getValueFromResult self out")
             (auto simp: storeCachedResult_def thenP_def addCached_def
                   split: if_splits sum.splits)
        moreover have "w' = w2"
          using rc rt Resolved Inr True st
          by (cases r2) (auto simp: runProxiedTaskAndCache_def thenP_def)
        ultimately show ?thesis by simp
      qed
    qed
  qed (use rc rt in \<open>auto simp: runProxiedTaskAndCache_def\<close>)
  then obtain l where l: "calls w' = calls w0 @ task_calls self @ l"
    using f by auto
  have "new_calls w w' = l0 @ task_calls self @ l"
    using l assms(2) by (simp add: new_calls_def)
  then show ?thesis
    using task_calls_task [of self] rw by (auto simp: list_ex_iff)
qed

lemma acceptsCached_file:
  assumes "files self = f # fs"
  shows "acceptsCached v self
     = Inr (\<not> (truthy (get_prop v ''filePathChangedInsideTask'')
              \<and> \<not> strict_eq (get_prop v ''originalPath'') (get_prop (JObj f) ''path'')))"
  using assms by (simp add: acceptsCached_def file0_def)

text \<open>
  C1, as stated, fails on the code. The entry stored when \<open>/a.txt\<close> was renamed to
  \<open>/b.txt\<close> by the task is found again for the input \<open>/b.txt\<close> with the same
  content: the stored path equals the input's path, so the three-part condition of the
  claim is false and the claim has the cached value accepted; the code does not look at
  the stored path here and runs the task again.
\<close>

theorem C1_counterexample:
  "\<not> manyToMany (opts proxyB)
   \<and> fst (checkForCachedValue env0 proxyB worldStored) = Resolved (keyA, cachedB)
   \<and> truthy cachedB
   \<and> get_prop cachedB ''path'' = get_prop (JObj fileB) ''path''
   \<and> list_ex isTaskCall (new_calls worldStored (snd (processFiles env0 proxyB worldStored)))"
proof -
  let ?w0 = "log_call (GetCached ''default'' keyA) (log_call (KeyCall (JObj fileB)) worldStored)"
  have o: "\<not> manyToMany (opts proxyB)" "files proxyB = [fileB]"
    "opts proxyB = defaultOptions env0 False" "task proxyB = Some renameTask"
    by (simp_all add: proxyB_def TaskProxy_def defaultOptions_def)
  have b: "get_prop (JObj fileB) ''contents'' = JBuffer [97, 98, 99]"
    by (simp add: fileB_def get_prop_def)
  have c: "checkForCachedValue env0 proxyB worldStored = (Resolved (keyA, cachedB), ?w0)"
    by (rule check_stored [OF o(2) b o(3)])
  have t: "truthy cachedB" by (simp add: cachedB_def)
  have p: "get_prop cachedB ''path'' = get_prop (JObj fileB) ''path''"
    by (simp add: cachedB_def fileB_def get_prop_def)
  have a: "acceptsCached cachedB proxyB = Inr False"
    by (simp add: acceptsCached_file [OF o(2)] cachedB_def fileB_def get_prop_def strict_eq_def)
  have pf: "processFiles env0 proxyB worldStored = run_and_wrap env0 proxyB keyA ?w0"
    by (rule processFiles_fallthrough [OF o(1) c t a])
  have "calls ?w0 = calls worldStored @ [KeyCall (JObj fileB), GetCached ''default'' keyA]"
    by simp
  from run_and_wrap_task_calls [OF o(4) this]
  show ?thesis using o(1) c t p pf by simp
qed

text \<open>
  C1, amended. In one-to-one mode, for every invocation that finds a (truthy) cached
  value under the computed key, the wrapped task is run again exactly when the cached
  value marks the path as changed inside the task and its \<open>originalPath\<close> is not the
  current input's path; whether the stored path differs from the input's path plays no
  part. In that case the invocation continues as on a miss; in every other hit case the
  cached value is merged onto the input, the invocation resolves with it in the world
  as the lookup left it, and the task is not called.
\<close>

theorem C1_fallthrough_condition:
  assumes "\<not> manyToMany (opts self)"
    and "task self = Some t"
    and "checkForCachedValue E self w = (Resolved (k, v), w0)"
    and "truthy v"
    and "files self = f # fs"
  shows "list_ex isTaskCall (new_calls w (snd (processFiles E self w)))
           = (truthy (get_prop v ''filePathChangedInsideTask'')
              \<and> \<not> strict_eq (get_prop v ''originalPath'') (get_prop (JObj f) ''path''))
       \<and> (if truthy (get_prop v ''filePathChangedInsideTask'')
              \<and> \<not> strict_eq (get_prop v ''originalPath'') (get_prop (JObj f) ''path'')
           then processFiles E self w = run_and_wrap E self k w0
           else \<exists>merged. mergeCached v self = Inr merged
                  \<and> processFiles E self w = (Resolved (JArr [JObj merged] []), w0))"
proof -
  from checkForCachedValue_frame [OF assms(3)] obtain l where
    l: "calls w0 = calls w @ l" "\<not> list_ex isTaskCall l"
    by blast
  show ?thesis
  proof (cases "truthy (get_prop v ''filePathChangedInsideTask'')
              \<and> \<not> strict_eq (get_prop v ''originalPath'') (get_prop (JObj f) ''path'')")
    case True
    then have a: "acceptsCached v self = Inr False"
      by (simp add: acceptsCached_file [OF assms(5)])
    have pf: "processFiles E self w = run_and_wrap E self k w0"
      by (rule processFiles_fallthrough [OF assms(1,3,4) a])
    from run_and_wrap_task_calls [OF assms(2) l(1), of E k]
    show ?thesis using True pf by simp
  next
    case False
    then have a: "acceptsCached v self = Inr True"
      by (simp add: acceptsCached_file [OF assms(5)])
    from mergeCached_props [OF assms(5), of v] obtain merged where
      m: "mergeCached v self = Inr merged" by blast
    have pf: "processFiles E self w = (Resolved (JArr [JObj merged] []), w0)"
      by (rule processFiles_accept [OF assms(1,3,4) a m])
    have "new_calls w w0 = l" using l(1) by (simp add: new_calls_def)
    then have "\<not> list_ex isTaskCall (new_calls w (snd (processFiles E self w)))"
      using pf l(2) by simp
    then show ?thesis using False pf m by auto
  qed
qed

theorem C1_fallthrough_witness:
  "list_ex isTaskCall (new_calls worldStored (snd (processFiles env0 proxyB worldStored)))
   \<and> \<not> list_ex isTaskCall (new_calls worldStored (snd (processFiles env0 proxyA worldStored)))"
proof -
  have oB: "\<not> manyToMany (opts proxyB)" "files proxyB = [fileB]"
    "opts proxyB = defaultOptions env0 False" "task proxyB = Some renameTask"
    by (simp_all add: proxyB_def TaskProxy_def defaultOptions_def)
  have oA: "\<not> manyToMany (opts proxyA)" "files proxyA = [fileA]"
    "opts proxyA = defaultOptions env0 False" "task proxyA = Some renameTask"
    by (simp_all add: proxyA_def TaskProxy_def defaultOptions_def)
  have bB: "get_prop (JObj fileB) ''contents'' = JBuffer [97, 98, 99]"
    by (simp add: fileB_def get_prop_def)
  have bA: "get_prop (JObj fileA) ''contents'' = JBuffer [97, 98, 99]"
    by (simp add: fileA_def get_prop_def)
  have t: "truthy cachedB" by (simp add: cachedB_def)
  have cB: "truthy (get_prop cachedB ''filePathChangedInsideTask'')
              \<and> \<not> strict_eq (get_prop cachedB ''originalPath'') (get_prop (JObj fileB) ''path'')"
    by (simp add: cachedB_def fileB_def get_prop_def strict_eq_def)
  have cA: "\<not> (truthy (get_prop cachedB ''filePathChangedInsideTask'')
              \<and> \<not> strict_eq (get_prop cachedB ''originalPath'') (get_prop (JObj fileA) ''path''))"
    by (simp add: cachedB_def fileA_def get_prop_def strict_eq_def)
  have "list_ex isTaskCall (new_calls worldStored (snd (processFiles env0 proxyB worldStored)))"
    using C1_fallthrough_condition [OF oB(1) oB(4) check_stored [OF oB(2) bB oB(3)] t oB(2)] cB
    by blast
  moreover
  have "\<not> list_ex isTaskCall (new_calls worldStored (snd (processFiles env0 proxyA worldStored)))"
    using C1_fallthrough_condition [OF oA(1) oA(4) check_stored [OF oA(2) bA oA(3)] t oA(2)] cA
    by blast
  ultimately show ?thesis by blast
qed

section \<open>The stored form of a batch\<close>

text \<open>
  C4, as stated, fails on the code. One input \<open>/a.txt\<close> is run in many-to-many mode
  through a task whose output has the path \<open>/b.txt\<close>; the stored text is the JSON
  array of the one extracted element, which has neither an \<open>originalPath\<close> nor a
  \<open>filePathChangedInsideTask\<close> field.
\<close>

theorem C4_counterexample:
  "manyToMany (opts proxyM)
   \<and> get_prop (JObj fileA) ''path'' = JStr ''/a.txt''
   \<and> get_prop (JObj outB) ''path'' = JStr ''/b.txt''
   \<and> fst (processFiles env0 proxyM world0) = Resolved (JArr [JObj outB] [])
   \<and> cache (snd (processFiles env0 proxyM world0))
       = [((''default'', keyA), Stringified (JsArr [storedElemB]))]
   \<and> map_of (json_fields storedElemB) ''originalPath'' = None
   \<and> map_of (json_fields storedElemB) ''filePathChangedInsideTask'' = None"
  by code_simp

text \<open>
  C4, amended. When a many-to-many result is cached under the default extraction, the
  stamps are put on the batch array itself and not on its elements, and
  \<open>JSON.stringify\<close> renders an array by its elements only: the stored text is the JSON
  array of the retained properties of each output, in order, and no element of it has
  an \<open>originalPath\<close> or a \<open>filePathChangedInsideTask\<close> field.
\<close>

theorem C4_batch_elements_unstamped:
  assumes "manyToMany (opts self)"
    and "value_opt (opts self) = ValueFn (defaultValue True)"
    and "truthy k"
  shows "storeCachedResult E self k outs w
           = (Resolved (),
              addCached (name (opts self)) k
                (Stringified (JsArr (map (\<lambda>out. JsObj (to_json_props (fileToObj out))) outs))) w)
       \<and> (\<forall>out \<in> set outs.
             ''originalPath'' \<notin> fst ` set (to_json_props (fileToObj out))
             \<and> ''filePathChangedInsideTask'' \<notin> fst ` set (to_json_props (fileToObj out)))"
proof -
  have v: "getValueFromResult self outs = Resolved (JArr (map (\<lambda>f. JObj (fileToObj f)) outs) [])"
    using assms(1,2) by (simp add: getValueFromResult_def result_arg_def defaultValue_def)
  have s: "storeCachedResult E self k outs w
           = (Resolved (),
              addCached (name (opts self)) k
                (Stringified (JsArr (map (\<lambda>out. JsObj (to_json_props (fileToObj out))) outs))) w)"
    using assms(3)
    by (simp add: storeCachedResult_def v thenP_def encodeValue_array to_json_elems_objects)
  have "fst ` set (to_json_props (fileToObj out)) \<subseteq> set retained" for out
    using keys_to_json_props [of "fileToObj out"] keys_objectPick [of out retained]
    by (auto simp: fileToObj_def)
  then have "''originalPath'' \<notin> fst ` set (to_json_props (fileToObj out))
             \<and> ''filePathChangedInsideTask'' \<notin> fst ` set (to_json_props (fileToObj out))" for out
    by (auto simp: retained_def)
  with s show ?thesis by blast
qed

theorem C4_batch_elements_witness:
  "manyToMany (opts proxyM)
   \<and> truthy keyA
   \<and> storeCachedResult env0 proxyM keyA [JObj outB] world0
       = (Resolved (),
          addCached ''default'' keyA
            (Stringified (JsArr (map (\<lambda>out. JsObj (to_json_props (fileToObj out))) [JObj outB]))) world0)
   \<and> ''originalPath'' \<notin> fst ` set (to_json_props (fileToObj (JObj outB)))"
proof -
  have m: "manyToMany (opts proxyM)"
    and v: "value_opt (opts proxyM) = ValueFn (defaultValue True)"
    and n: "name (opts proxyM) = ''default''"
    by (simp_all add: proxyM_def TaskProxy_def defaultOptions_def)
  have k: "truthy keyA" by (simp add: keyA_def)
  from C4_batch_elements_unstamped [OF m v k, of env0 "[JObj outB]" world0] m k n
  show ?thesis by simp
qed

section \<open>The round trip\<close>

lemma map_err_all2:
  "(\<And>x. x \<in> set xs \<Longrightarrow> \<exists>y. f x = Inr y \<and> P x y) \<Longrightarrow>
     \<exists>ys. map_err f xs = Inr ys \<and> list_all2 P xs ys"
proof (induction xs)
  case Nil
  then show ?case by simp
next
  case (Cons x xs)
  from Cons.prems [of x] obtain y where y: "f x = Inr y" "P x y" by auto
  from Cons.IH Cons.prems obtain ys where ys: "map_err f xs = Inr ys" "list_all2 P xs ys"
    by auto
  show ?case by (simp add: y ys)
qed

lemma map_err_map: "map_err f (map g xs) = map_err (\<lambda>x. f (g x)) xs"
  by (induction xs) (simp_all split: sum.splits)

lemma of_json_elems_objects:
  "of_json_elems (map (\<lambda>f. JsObj (g f)) outs) = map (\<lambda>f. JObj (of_json_props (g f))) outs"
  by (induction outs) simp_all

lemma distinct_fileToObj: "distinct (map fst (fileToObj v))"
  unfolding fileToObj_def by (rule distinct_objectPick)

lemma element_roundtrip:
  assumes "distinct (map fst q)"
    and "artifact_contents (get_prop (JObj ps) ''contents'')"
    and "\<And>k. k \<in> set retained \<Longrightarrow> get_prop (JObj q) k = get_prop (JObj ps) k"
  shows "\<exists>y. restoreFileFromObj E (JObj (of_json_props (to_json_props q))) = Inr y
     \<and> (\<forall>k \<in> set retained. reproducible k (get_prop (JObj ps) k)
            \<longrightarrow> get_prop y k = get_prop (JObj ps) k)"
proof -
  have c: "''contents'' \<in> set retained" by (simp add: retained_def)
  have a: "artifact_contents (get_prop (JObj q) ''contents'')"
    using assms(2,3) c by simp
  from restoreFileFromObj_artifact [OF assms(1) a, of E] obtain r where
    r: "restoreFileFromObj E (JObj (of_json_props (to_json_props q))) = Inr (JObj r)"
    and g: "\<And>k. get_prop (JObj r) k
            = (if k = ''contents'' then get_prop (JObj q) ''contents''
               else reparsed (get_prop (JObj q) k))"
    by blast
  have "get_prop (JObj r) k = get_prop (JObj ps) k"
    if "k \<in> set retained" and "reproducible k (get_prop (JObj ps) k)" for k
    using that assms(3) c reparsed_reproducible [of k "get_prop (JObj ps) k"]
    by (simp add: g)
  with r show ?thesis by blast
qed

text \<open>
  C2, as stated, fails on the code. An output artifact as a file source produces it
  carries file stats whose times are Date objects; \<open>stat\<close> is a retained property,
  \<open>JSON.stringify\<close> renders a Date as its ISO text and nothing turns the text back
  into a Date, so the restored artifact's \<open>stat\<close> holds a string where the output
  held a Date.
\<close>

theorem C2_counterexample:
  "get_prop (JObj outDated) ''stat''
     = JObj [(''size'', JNum 3), (''mtime'', JDate ''2015-06-01T12:00:00.000Z'')]
   \<and> (case restore_encode_extract env0 proxyA [JObj outDated] of
         Inl e \<Rightarrow> False
       | Inr restored \<Rightarrow>
           get_prop restored ''stat''
             = JObj [(''size'', JNum 3), (''mtime'', JStr ''2015-06-01T12:00:00.000Z'')]
           \<and> get_prop restored ''stat'' \<noteq> get_prop (JObj outDated) ''stat''
           \<and> get_prop restored ''contents'' = JBuffer [65, 66, 255])"
  by code_simp

text \<open>
  C2, amended. For task outputs that are artifacts with in-memory content (a Buffer or
  null), the default extraction, the encoding to the stored text, the decoding and the
  default restoration succeed and give back, for a single output in one-to-one mode and
  element by element for a batch in many-to-many mode, an artifact on which every
  retained property that JSON represents exactly (absent, or built from null, booleans,
  numbers, strings, arrays and objects) reads as on the output, and the content reads as
  on the output byte for byte. A property holding a Date, a Buffer other than the
  content, or \<open>undefined\<close> inside an object or array is not reproduced.
\<close>

theorem C2_roundtrip:
  assumes "opts self1 = defaultOptions E False"
    and "opts selfN = defaultOptions E True"
    and "artifact_contents (get_prop (JObj ps) ''contents'')"
    and "list_all (\<lambda>ps. artifact_contents (get_prop (JObj ps) ''contents'')) pss"
  shows "(\<exists>y. restore_encode_extract E self1 (JObj ps # rest) = Inr y
            \<and> (\<forall>k \<in> set retained. reproducible k (get_prop (JObj ps) k)
                   \<longrightarrow> get_prop y k = get_prop (JObj ps) k))
       \<and> (\<exists>ys. restore_encode_extract E selfN (map JObj pss) = Inr (JArr ys [])
            \<and> list_all2 (\<lambda>ps y. \<forall>k \<in> set retained. reproducible k (get_prop (JObj ps) k)
                                    \<longrightarrow> get_prop y k = get_prop (JObj ps) k) pss ys)"
proof
  let ?q = "stamped self1 (fileToObj (JObj ps))"
  have d: "distinct (map fst ?q)"
    by (rule distinct_stamped) (rule distinct_fileToObj)
  have g: "get_prop (JObj ?q) k = get_prop (JObj ps) k" if "k \<in> set retained" for k
    using that by (simp add: get_prop_stamped get_prop_fileToObj)
  have e: "restore_encode_extract E self1 (JObj ps # rest)
             = restoreFileFromObj E (JObj (of_json_props (to_json_props ?q)))"
    by (simp add: restore_encode_extract_def getValueFromResult_def result_arg_def assms(1)
          defaultOptions_def defaultValue_def encodeValue_object decodeCached_def
          defaultRestore_def)
  from element_roundtrip [OF d assms(3) g, of E]
  show "\<exists>y. restore_encode_extract E self1 (JObj ps # rest) = Inr y
            \<and> (\<forall>k \<in> set retained. reproducible k (get_prop (JObj ps) k)
                   \<longrightarrow> get_prop y k = get_prop (JObj ps) k)"
    by (simp add: e)
next
  let ?P = "\<lambda>ps y. \<forall>k \<in> set retained. reproducible k (get_prop (JObj ps) k)
                                    \<longrightarrow> get_prop y k = get_prop (JObj ps) k"
  let ?f = "\<lambda>ps. restoreFileFromObj E (JObj (of_json_props (to_json_props (fileToObj (JObj ps)))))"
  have el: "\<exists>y. ?f ps' = Inr y \<and> ?P ps' y" if "ps' \<in> set pss" for ps'
  proof -
    have a: "artifact_contents (get_prop (JObj ps') ''contents'')"
      using assms(4) that by (simp add: list_all_iff)
    have d: "distinct (map fst (fileToObj (JObj ps')))"
      by (rule distinct_fileToObj)
    have g: "get_prop (JObj (fileToObj (JObj ps'))) k = get_prop (JObj ps') k"
      if "k \<in> set retained" for k
      using that by (simp add: get_prop_fileToObj)
    from element_roundtrip [OF d a g, of E] show ?thesis by simp
  qed
  from map_err_all2 [of pss ?f ?P, OF el] obtain ys where
    ys: "map_err ?f pss = Inr ys" "list_all2 ?P pss ys" by blast
  have m: "map_err (restoreFileFromObj E)
             (map (\<lambda>ps. JObj (of_json_props (to_json_props (fileToObj (JObj ps))))) pss)
           = map_err ?f pss"
    by (rule map_err_map)
  have e: "restore_encode_extract E selfN (map JObj pss) = Inr (JArr ys [])"
    by (simp add: restore_encode_extract_def getValueFromResult_def result_arg_def assms(2)
          defaultOptions_def defaultValue_def encodeValue_array decodeCached_def
          defaultRestore_def to_json_elems_objects of_json_elems_objects comp_def m ys(1))
  with ys(2) show "\<exists>ys. restore_encode_extract E selfN (map JObj pss) = Inr (JArr ys [])
            \<and> list_all2 ?P pss ys"
    by blast
qed

theorem C2_roundtrip_witness:
  "artifact_contents (get_prop (JObj outB) ''contents'')
   \<and> reproducible ''history'' (get_prop (JObj outB) ''history'')
   \<and> (\<exists>y. restore_encode_extract env0 proxyA [JObj outB] = Inr y
          \<and> get_prop y ''contents'' = JBuffer [65, 66, 255]
          \<and> get_prop y ''history'' = get_prop (JObj outB) ''history'')
   \<and> (\<exists>ys. restore_encode_extract env0 proxyM (map JObj [outB, fileA]) = Inr (JArr ys [])
          \<and> length ys = 2
          \<and> get_prop (ys ! 1) ''contents'' = JBuffer [97, 98, 99])"
proof -
  have o1: "opts proxyA = defaultOptions env0 False"
    and oN: "opts proxyM = defaultOptions env0 True"
    by (simp_all add: proxyA_def proxyM_def TaskProxy_def)
  have a: "artifact_contents (get_prop (JObj outB) ''contents'')"
    by (simp add: outB_def get_prop_def)
  have aa: "list_all (\<lambda>ps. artifact_contents (get_prop (JObj ps) ''contents'')) [outB, fileA]"
    by (simp add: outB_def fileA_def get_prop_def)
  have h: "reproducible ''history'' (get_prop (JObj outB) ''history'')"
    by (simp add: reproducible_def outB_def get_prop_def)
  have c: "reproducible ''contents'' v" for v by (simp add: reproducible_def)
  have r: "''contents'' \<in> set retained" "''history'' \<in> set retained"
    by (simp_all add: retained_def)
  have cB: "get_prop (JObj outB) ''contents'' = JBuffer [65, 66, 255]"
    and cA: "get_prop (JObj fileA) ''contents'' = JBuffer [97, 98, 99]"
    by (simp_all add: outB_def fileA_def get_prop_def)
  from C2_roundtrip [OF o1 oN a aa, of "[]"] obtain y ys where
    y: "restore_encode_extract env0 proxyA [JObj outB] = Inr y"
      "\<forall>k \<in> set retained. reproducible k (get_prop (JObj outB) k)
                   \<longrightarrow> get_prop y k = get_prop (JObj outB) k"
    and ys: "restore_encode_extract env0 proxyM (map JObj [outB, fileA]) = Inr (JArr ys [])"
      "list_all2 (\<lambda>ps y. \<forall>k \<in> set retained. reproducible k (get_prop (JObj ps) k)
                                    \<longrightarrow> get_prop y k = get_prop (JObj ps) k) [outB, fileA] ys"
    by blast
  have y1: "get_prop y ''contents'' = JBuffer [65, 66, 255]"
    using y(2) r(1) c cB by auto
  have y2: "get_prop y ''history'' = get_prop (JObj outB) ''history''"
    using y(2) r(2) h by blast
  from ys(2) have l: "length ys = 2" by (auto dest: list_all2_lengthD)
  from ys(2) have "\<forall>k \<in> set retained. reproducible k (get_prop (JObj fileA) k)
                                    \<longrightarrow> get_prop (ys ! 1) k = get_prop (JObj fileA) k"
    using list_all2_nthD [of _ "[outB, fileA]" ys 1] by simp
  then have y3: "get_prop (ys ! 1) ''contents'' = JBuffer [97, 98, 99]"
    using r(1) c cA by auto
  show ?thesis using a h y(1) y1 y2 ys(1) l y3 by blast
qed

section \<open>An error of the task\<close>

lemma failingProxy_check:
  "checkForCachedValue env0 failingProxy world0
     = (Resolved (failingKey, JNull),
        log_call (GetCached ''default'' failingKey) (log_call (KeyCall (key_arg failingProxy)) world0))"
  by (simp add: checkForCachedValue_def getFileKey_def failingProxy_def TaskProxy_def
        defaultOptions_def key_arg_def defaultKey_def contents_base64_def fileA_def fileB_def
        get_prop_def env0_def thenP_def hash_key_def Let_def world0_def failingKey_def
        log_call_def log_calls_def)

text \<open>
  C9, as stated, fails on the code. In one-to-one mode the first output completes the
  run: the bridge resolves and removes its listeners at once. A task that emits an
  output and then an error has signalled an error, yet the invocation resolves with the
  output collected before it, and that output is written to the store.
\<close>

theorem C9_counterexample:
  "\<not> manyToMany (opts failingOneProxy)
   \<and> failingTask (task_inputs failingOneProxy)
       = [Data (JObj outB), Error (JStr ''boom''), Data (JObj outB), End JUndefined]
   \<and> fst (processFiles env0 failingOneProxy world0) = Resolved (JArr [JObj outB] [])
   \<and> list_ex isAddCached (new_calls world0 (snd (processFiles env0 failingOneProxy world0)))
   \<and> map_of (cache (snd (processFiles env0 failingOneProxy world0))) (''default'', keyA)
       = Some (Stringified storedB)"
  by code_simp

text \<open>
  C9, amended. If the task signals an error while the bridge is still listening, that
  is before an end event and, in one-to-one mode, before the first truthy output (which
  completes the run), then, whether the task is run after a miss or after a refused
  one-to-one hit, the bridge's promise is rejected with that error and so is the
  invocation; the listeners the bridge added are removed (the task's listener table is
  as it was found); the outputs collected before the error are dropped: nothing is
  returned, the store is as it was before the invocation, and no \<open>addCached\<close> call is
  made.
\<close>

theorem C9_task_error_rejects:
  assumes "task self = Some t"
    and "t (task_inputs self) = pre @ Error e # post"
    and "list_all (keeps_listening (manyToMany (opts self))) pre"
    and "checkForCachedValue E self w = (Resolved (k, v), w0)"
    and "runs_task self v"
  shows "\<exists>w1. runProxiedTask self w0 = (Rejected (Thrown e), w1)
           \<and> processFiles E self w = (Rejected (Thrown e), w1)
           \<and> listeners w1 = listeners w
           \<and> cache w1 = cache w
           \<and> \<not> list_ex isAddCached (new_calls w w1)"
proof -
  let ?w1 = "detach (log_calls (task_calls self) (attach w0))"
  have run: "runProxiedTask self w0 = (Rejected (Thrown e), ?w1)"
    by (rule runProxiedTask_error [OF assms(1,2,3)])
  have pf: "processFiles E self w = (Rejected (Thrown e), ?w1)"
    by (simp add: processFiles_runs [OF assms(4,5)] run_and_wrap_def
          runProxiedTaskAndCache_def run)
  from checkForCachedValue_frame [OF assms(4)] obtain l where
    f: "cache w0 = cache w" "listeners w0 = listeners w" "calls w0 = calls w @ l"
       "\<not> list_ex isAddCached l"
    by blast
  have "new_calls w ?w1 = l @ task_calls self"
    using f by (simp add: new_calls_def)
  then have "\<not> list_ex isAddCached (new_calls w ?w1)"
    using f(4) task_calls_no_add [of self] by (auto simp: list_ex_iff)
  then show ?thesis
    using run pf f listeners_detach_attach [of "task_calls self" w0] by simp
qed

theorem C9_task_error_witness:
  "list_all (keeps_listening (manyToMany (opts failingProxy))) [Data (JObj outB)]
   \<and> runs_task failingProxy JNull
   \<and> (\<exists>w1. processFiles env0 failingProxy world0 = (Rejected (Thrown (JStr ''boom'')), w1)
          \<and> listeners w1 = listeners world0
          \<and> cache w1 = cache world0
          \<and> \<not> list_ex isAddCached (new_calls world0 w1))
   \<and> list_all (keeps_listening (manyToMany (opts refusedProxy))) [Data JNull]
   \<and> truthy cachedB
   \<and> runs_task refusedProxy cachedB
   \<and> (\<exists>w1. processFiles env0 refusedProxy worldStored = (Rejected (Thrown (JStr ''boom'')), w1)
          \<and> listeners w1 = listeners worldStored
          \<and> cache w1 = cache worldStored
          \<and> \<not> list_ex isAddCached (new_calls worldStored w1))"
proof -
  have t: "task failingProxy = Some failingTask"
    by (simp add: failingProxy_def TaskProxy_def)
  have tr: "failingTask (task_inputs failingProxy)
       = [Data (JObj outB)] @ Error (JStr ''boom'') # [Data (JObj outB), End JUndefined]"
    by (simp add: failingTask_def)
  have pre: "list_all (keeps_listening (manyToMany (opts failingProxy))) [Data (JObj outB)]"
    by (simp add: failingProxy_def TaskProxy_def defaultOptions_def)
  have miss: "runs_task failingProxy JNull" by (simp add: runs_task_def)
  have o: "\<not> manyToMany (opts refusedProxy)" "files refusedProxy = [fileB]"
    "opts refusedProxy = defaultOptions env0 False" "task refusedProxy = Some errorTask"
    by (simp_all add: refusedProxy_def TaskProxy_def defaultOptions_def)
  have b: "get_prop (JObj fileB) ''contents'' = JBuffer [97, 98, 99]"
    by (simp add: fileB_def get_prop_def)
  have tr2: "errorTask (task_inputs refusedProxy)
       = [Data JNull] @ Error (JStr ''boom'') # [End JUndefined]"
    by (simp add: errorTask_def)
  have pre2: "list_all (keeps_listening (manyToMany (opts refusedProxy))) [Data JNull]"
    by simp
  have tc: "truthy cachedB" by (simp add: cachedB_def)
  have a: "acceptsCached cachedB refusedProxy = Inr False"
    by (simp add: acceptsCached_file [OF o(2)] cachedB_def fileB_def get_prop_def strict_eq_def)
  have refused: "runs_task refusedProxy cachedB"
    using tc o(1) a by (simp add: runs_task_def)
  from C9_task_error_rejects [OF t tr pre failingProxy_check miss]
    C9_task_error_rejects [OF o(4) tr2 pre2 check_stored [OF o(2) b o(3)] refused]
  show ?thesis using pre miss pre2 tc refused by blast
qed

section \<open>Null artifacts at the stream interface\<close>

lemma isNull_fileNull: "isNull fileNull"
  by (simp add: isNull_def fileNull_def get_prop_def)

text \<open>
  C10. At the stream interface an input artifact whose content is null is forwarded
  downstream as it is, whatever the options (so in both cardinality modes), by the
  caching transform and by the invalidating one: the callback is called without an
  error, what has been pushed downstream is extended by exactly this artifact, it is
  not collected for the flush, and the world is untouched, so no key function call, no
  store call and no task call is made for it.
\<close>

theorem C10_null_forwarded:
  "isNull file \<Longrightarrow>
     cache_transform E cfg t file (s, w) = (Done, s\<lparr>pushed := pushed s @ [JObj file]\<rparr>, w) \<and>
     clear_transform E cfg file (s, w) = (Done, s\<lparr>pushed := pushed s @ [JObj file]\<rparr>, w)"
  by (simp add: cache_transform_def clear_transform_def push_all_def)

theorem C10_null_forwarded_witness:
  "isNull fileNull \<and>
   cache_transform env0 (defaultOptions env0 True) renameTask fileNull (stream0, world0)
     = (Done, \<lparr>inputFiles = [], pushed = [JObj fileNull]\<rparr>, world0) \<and>
   clear_transform env0 (defaultOptions env0 False) fileNull (stream0, world0)
     = (Done, \<lparr>inputFiles = [], pushed = [JObj fileNull]\<rparr>, world0)"
  using C10_null_forwarded [OF isNull_fileNull, of env0 "defaultOptions env0 True" renameTask stream0 world0]
    C10_null_forwarded [OF isNull_fileNull, of env0 "defaultOptions env0 False" renameTask stream0 world0]
    isNull_fileNull
  by (simp add: stream0_def)

end
